theory Spec2Isabelle
  imports Main "HOL-Library.AList"
begin

section \<open>Data model\<close>

text \<open>
  The rows of \<^verbatim>\<open>core/models.py\<close> and \<^verbatim>\<open>tenants/models.py\<close>. Primary keys are
  natural numbers, timestamps are integers (microseconds since the epoch; the range limits
  of Python's datetime are outside the model), nullable columns are options. The CharFields
  with \<^verbatim>\<open>choices\<close> stay strings: the database column does not enforce the choices.
  A character of a string is a code point below 256 (Latin-1); texts with other code points
  are outside the model.
\<close>

record user =
  user_id :: nat
  username :: string
  email :: string
  password :: string
  is_staff :: bool
  is_superuser :: bool

record user_profile =
  profile_user :: nat
  role :: string
  phone :: "string option"
  department :: "string option"
  profile_is_active :: bool

record project =
  project_id :: nat
  project_name :: string
  project_status :: string
  owner :: nat
  members :: "nat list"
  project_created_at :: int

record task =
  task_id :: nat
  task_project :: nat
  title :: string
  priority :: string
  status :: string
  assigned_to :: "nat option"
  created_by :: nat
  due_date :: "int option"
  completed_at :: "int option"
  created_at :: int

text \<open>The tables of one schema (namespace).\<close>

record tenant_db =
  users :: "user list"
  profiles :: "user_profile list"
  projects :: "project list"
  tasks :: "task list"

record company =
  company_id :: nat
  name :: string
  schema_name :: string
  subscription_plan :: string
  is_active :: bool

record domain =
  domain_id :: nat
  domain :: string
  tenant :: nat
  is_primary :: bool

text \<open>
  The persistent store: the shared tables of the registry and the schemas by name, as an
  association list (looked up with \<^const>\<open>map_of\<close>).
\<close>

record database =
  companies :: "company list"
  domains :: "domain list"
  schemas :: "(string \<times> tenant_db) list"

text \<open>
  The process state: the store, the active schema of the database connection
  (\<^verbatim>\<open>connection.schema_name\<close>), the log and the mails sent.
\<close>

record world =
  db :: database
  connection_schema_name :: string
  log :: "string list"
  outbox :: "(string \<times> string) list"

datatype error =
    IntegrityError string
  | ValidationError string
  | DoesNotExist string
  | ProgrammingError string
  | ValueError string
  | MailError string

section \<open>Project statistics (core/views.py, ProjectViewSet.statistics)\<close>

record project_statistics =
  total_tasks :: nat
  todo :: nat
  in_progress :: nat
  review :: nat
  done_count :: nat
  by_priority_low :: nat
  by_priority_medium :: nat
  by_priority_high :: nat
  by_priority_urgent :: nat

text \<open>\<^verbatim>\<open>queryset.filter(...).count()\<close>\<close>

definition count_where :: "('a \<Rightarrow> bool) \<Rightarrow> 'a list \<Rightarrow> nat" where
  "count_where P xs = length (filter P xs)"

text \<open>\<^verbatim>\<open>project.tasks.all()\<close>: the tasks whose foreign key is the project.\<close>

definition project_tasks :: "tenant_db \<Rightarrow> project \<Rightarrow> task list" where
  "project_tasks t p = filter (\<lambda>k. task_project k = project_id p) (tasks t)"

definition statistics :: "tenant_db \<Rightarrow> project \<Rightarrow> project_statistics" where
  "statistics t p =
     (let ts = project_tasks t p in
      \<lparr> total_tasks = length ts,
        todo = count_where (\<lambda>k. status k = ''todo'') ts,
        in_progress = count_where (\<lambda>k. status k = ''in_progress'') ts,
        review = count_where (\<lambda>k. status k = ''review'') ts,
        done_count = count_where (\<lambda>k. status k = ''done'') ts,
        by_priority_low = count_where (\<lambda>k. priority k = ''low'') ts,
        by_priority_medium = count_where (\<lambda>k. priority k = ''medium'') ts,
        by_priority_high = count_where (\<lambda>k. priority k = ''high'') ts,
        by_priority_urgent = count_where (\<lambda>k. priority k = ''urgent'') ts \<rparr>)"

definition STATUS_CHOICES :: "string list" where
  "STATUS_CHOICES = [''todo'', ''in_progress'', ''review'', ''done'']"

definition PRIORITY_CHOICES :: "string list" where
  "PRIORITY_CHOICES = [''low'', ''medium'', ''high'', ''urgent'']"

section \<open>Python string methods\<close>

text \<open>
  \<^verbatim>\<open>str.isalnum()\<close> of one character: the digits and letters of ASCII and, above it, the
  letters, digits and fractions of Latin-1 (all of it but the signs up to 191 other than
  170, 178, 179, 181, 185, 186, 188, 189, 190, and the two signs 215 and 247).
\<close>

definition isalnum_char :: "char \<Rightarrow> bool" where
  "isalnum_char c =
     (let n = (of_char c :: nat) in
      (48 \<le> n \<and> n \<le> 57) \<or> (65 \<le> n \<and> n \<le> 90) \<or> (97 \<le> n \<and> n \<le> 122)
      \<or> n = 170 \<or> (178 \<le> n \<and> n \<le> 179) \<or> n = 181 \<or> (185 \<le> n \<and> n \<le> 186)
      \<or> (188 \<le> n \<and> n \<le> 190) \<or> (192 \<le> n \<and> n \<le> 214) \<or> (216 \<le> n \<and> n \<le> 246)
      \<or> 248 \<le> n)"

text \<open>\<^verbatim>\<open>str.isalnum()\<close>: every character is alphanumeric and there is at least one.\<close>

definition isalnum :: "string \<Rightarrow> bool" where
  "isalnum s = (s \<noteq> [] \<and> list_all isalnum_char s)"

text \<open>\<^verbatim>\<open>value.replace('_', '')\<close>\<close>

definition replace_underscore :: "string \<Rightarrow> string" where
  "replace_underscore s = filter (\<lambda>c. c \<noteq> CHR ''_'') s"

text \<open>
  \<^verbatim>\<open>str.lower()\<close> of one character: the capitals of ASCII and of Latin-1 (192 to 222
  without the sign 215) move up by 32, every other character stays.
\<close>

definition lower_char :: "char \<Rightarrow> char" where
  "lower_char c =
     (let n = (of_char c :: nat) in
      if (65 \<le> n \<and> n \<le> 90) \<or> (192 \<le> n \<and> n \<le> 214) \<or> (216 \<le> n \<and> n \<le> 222)
      then char_of (n + 32) else c)"

definition lower :: "string \<Rightarrow> string" where
  "lower s = map lower_char s"

section \<open>The database layer\<close>

text \<open>
  What the code uses of the ORM and of the tenant library. The unique columns are the
  schema name of a company, the host name of a domain (both declared by the tenant
  library's mixins), the username of a user and the user of a profile (one-to-one); an
  insert that repeats one raises IntegrityError. A table of a schema that does not exist
  cannot be read (ProgrammingError).
\<close>

definition next_pk :: "nat list \<Rightarrow> nat" where
  "next_pk ids = Suc (foldr max ids 0)"

definition empty_tenant :: tenant_db where
  "empty_tenant = \<lparr> users = [], profiles = [], projects = [], tasks = [] \<rparr>"

text \<open>Saving a new tenant creates its schema unless a schema of that name exists.\<close>

definition create_schema :: "string \<Rightarrow> database \<Rightarrow> database" where
  "create_schema s d =
     (case map_of (schemas d) s of
        Some _ \<Rightarrow> d
      | None \<Rightarrow> d\<lparr> schemas := schemas d @ [(s, empty_tenant)] \<rparr>)"

definition Company_objects_create ::
  "string \<Rightarrow> string \<Rightarrow> string \<Rightarrow> database \<Rightarrow> error + (company \<times> database)" where
  "Company_objects_create nm s plan d =
     (if \<exists>c \<in> set (companies d). schema_name c = s
      then Inl (IntegrityError ''duplicate key: schema_name'')
      else
        let c = \<lparr> company_id = next_pk (map company_id (companies d)), name = nm,
                  schema_name = s, subscription_plan = plan, is_active = True \<rparr>
        in Inr (c, create_schema s (d\<lparr> companies := companies d @ [c] \<rparr>)))"

definition Domain_objects_create ::
  "string \<Rightarrow> nat \<Rightarrow> bool \<Rightarrow> database \<Rightarrow> error + (domain \<times> database)" where
  "Domain_objects_create host cid prim d =
     (if \<exists>x \<in> set (domains d). domain x = host
      then Inl (IntegrityError ''duplicate key: domain'')
      else
        let x = \<lparr> domain_id = next_pk (map domain_id (domains d)), domain = host,
                  tenant = cid, is_primary = prim \<rparr>
        in Inr (x, d\<lparr> domains := domains d @ [x] \<rparr>))"

text \<open>The tables the connection reads and writes: those of its active schema.\<close>

definition current_tenant :: "world \<Rightarrow> tenant_db option" where
  "current_tenant w = map_of (schemas (db w)) (connection_schema_name w)"

definition store_tenant :: "tenant_db \<Rightarrow> world \<Rightarrow> world" where
  "store_tenant t w =
     w\<lparr> db := (db w)\<lparr> schemas := AList.update (connection_schema_name w) t (schemas (db w)) \<rparr> \<rparr>"

text \<open>\<^verbatim>\<open>connection.set_tenant(company)\<close>\<close>

definition set_tenant :: "company \<Rightarrow> world \<Rightarrow> world" where
  "set_tenant c w = w\<lparr> connection_schema_name := schema_name c \<rparr>"

text \<open>
  \<^verbatim>\<open>with transaction.atomic():\<close> an exception that leaves the block rolls the store back
  to what it was on entry. The connection's active schema is not part of the store.
\<close>

definition atomic :: "(world \<Rightarrow> (error + 'a) \<times> world) \<Rightarrow> world \<Rightarrow> (error + 'a) \<times> world" where
  "atomic body w =
     (case body w of
        (Inl e, w') \<Rightarrow> (Inl e, w'\<lparr> db := db w \<rparr>)
      | (Inr r, w') \<Rightarrow> (Inr r, w'))"

section \<open>Signals (core/signals.py)\<close>



text \<open>
  \<^verbatim>\<open>User.objects.create_user(...)\<close>: the insert into the users of the active schema. The
  signal it sends has no receiver (see above). The password is kept as given (its hashing
  is not modelled).
\<close>

definition create_user ::
  "string \<Rightarrow> string \<Rightarrow> string \<Rightarrow> bool \<Rightarrow> bool \<Rightarrow> world \<Rightarrow> (error + user) \<times> world" where
  "create_user uname mail pw staff super w =
     (case current_tenant w of
        None \<Rightarrow> (Inl (ProgrammingError ''relation auth_user does not exist''), w)
      | Some t \<Rightarrow>
          if \<exists>u \<in> set (users t). username u = uname
          then (Inl (IntegrityError ''duplicate key: username''), w)
          else
            let u = \<lparr> user_id = next_pk (map user_id (users t)), username = uname,
                      email = mail, password = pw, is_staff = staff, is_superuser = super \<rparr>
            in (Inr u, store_tenant (t\<lparr> users := users t @ [u] \<rparr>) w))"


section \<open>Company registration (tenants/serializers.py, tenants/views.py)\<close>

text \<open>
  The data of a request, as the fields of the serializer hand them to the validators
  (a CharField has trimmed the surrounding whitespace by then).
\<close>

record registration_data =
  company_name :: string
  reg_schema_name :: string
  domain_url :: string
  admin_username :: string
  admin_email :: string
  admin_password :: string
  reg_subscription_plan :: string

definition validate_schema_name :: "database \<Rightarrow> string \<Rightarrow> error + string" where
  "validate_schema_name d v =
     (if \<exists>c \<in> set (companies d). schema_name c = v
      then Inl (ValidationError ''This schema name is already taken.'')
      else if \<not> isalnum (replace_underscore v)
      then Inl (ValidationError
             ''Schema name must contain only alphanumeric characters and underscores.'')
      else Inr (lower v))"

definition validate_domain_url :: "database \<Rightarrow> string \<Rightarrow> error + string" where
  "validate_domain_url d v =
     (if \<exists>x \<in> set (domains d). domain x = v
      then Inl (ValidationError ''This domain is already registered.'')
      else Inr (lower v))"

text \<open>
  \<^verbatim>\<open>serializer.is_valid()\<close>: both field validators run and their errors are collected;
  without errors the validated data carry the validators' results. (The declarative
  checks of the fields -- lengths, e-mail syntax, the plan's choices -- come before and
  are not modelled: they only reject more.)
\<close>

definition is_valid :: "database \<Rightarrow> registration_data \<Rightarrow> error list + registration_data" where
  "is_valid d r =
     (case (validate_schema_name d (reg_schema_name r), validate_domain_url d (domain_url r)) of
        (Inr s, Inr h) \<Rightarrow> Inr (r\<lparr> reg_schema_name := s, domain_url := h \<rparr>)
      | (Inl e, Inr _) \<Rightarrow> Inl [e]
      | (Inr _, Inl e) \<Rightarrow> Inl [e]
      | (Inl e, Inl e') \<Rightarrow> Inl [e, e'])"

record registration_result =
  res_company :: company
  res_domain :: domain
  res_admin_user :: user

definition CompanyRegistrationSerializer_create ::
  "registration_data \<Rightarrow> world \<Rightarrow> (error + registration_result) \<times> world" where
  "CompanyRegistrationSerializer_create vd =
     atomic (\<lambda>w.
       case Company_objects_create (company_name vd) (reg_schema_name vd)
              (reg_subscription_plan vd) (db w) of
         Inl e \<Rightarrow> (Inl e, w)
       | Inr (c, d1) \<Rightarrow>
           (case Domain_objects_create (domain_url vd) (company_id c) True d1 of
              Inl e \<Rightarrow> (Inl e, w\<lparr> db := d1 \<rparr>)
            | Inr (x, d2) \<Rightarrow>
                (case create_user (admin_username vd) (admin_email vd) (admin_password vd)
                        True True (set_tenant c (w\<lparr> db := d2 \<rparr>)) of
                   (Inl e, w3) \<Rightarrow> (Inl e, w3)
                 | (Inr u, w3) \<Rightarrow>
                     (Inr \<lparr> res_company = c, res_domain = x, res_admin_user = u \<rparr>, w3))))"

datatype http_status =
    HTTP_200_OK
  | HTTP_201_CREATED
  | HTTP_400_BAD_REQUEST
  | HTTP_403_FORBIDDEN
  | HTTP_404_NOT_FOUND

text \<open>
  The view. An exception of \<^verbatim>\<open>create\<close> is not caught: it leaves the view (\<open>Inl\<close>).
  The answer 201 is given with the whole result of \<^verbatim>\<open>create\<close>; the source sends the
  names out of it.
\<close>

definition register_company ::
  "registration_data \<Rightarrow> world \<Rightarrow> (error + http_status \<times> (error list + registration_result)) \<times> world" where
  "register_company request_data w =
     (case is_valid (db w) request_data of
        Inl errors \<Rightarrow> (Inr (HTTP_400_BAD_REQUEST, Inl errors), w)
      | Inr vd \<Rightarrow>
          (case CompanyRegistrationSerializer_create vd w of
             (Inl e, w') \<Rightarrow> (Inl e, w')
           | (Inr result, w') \<Rightarrow> (Inr (HTTP_201_CREATED, Inr result), w')))"

section \<open>User registration inside a tenant (core/serializers.py, core/views.py)\<close>


definition ROLE_CHOICES :: "string list" where
  "ROLE_CHOICES = [''admin'', ''manager'', ''member'', ''viewer'']"



text \<open>The choice field \<^verbatim>\<open>role\<close>: a given role must be a choice, a missing one is the default.\<close>

definition validate_role :: "string option \<Rightarrow> error + string" where
  "validate_role r =
     (case r of
        None \<Rightarrow> Inr ''member''
      | Some v \<Rightarrow> if v \<in> set ROLE_CHOICES then Inr v
                  else Inl (ValidationError ''not a valid choice.''))"

definition errors_of :: "(error + 'a) \<Rightarrow> error list" where
  "errors_of r = (case r of Inl e \<Rightarrow> [e] | Inr _ \<Rightarrow> [])"




section \<open>Projects (core/views.py, ProjectViewSet)\<close>

text \<open>
  The views of a tenant run on the tables of the active schema, here \<open>t\<close>; \<open>u\<close> is the
  primary key of \<^verbatim>\<open>request.user\<close>, an authenticated identity.
\<close>

definition accessible :: "nat \<Rightarrow> project \<Rightarrow> bool" where
  "accessible u p = (owner p = u \<or> u \<in> set (members p))"

text \<open>\<^verbatim>\<open>Q(owner=user) | Q(members=user)\<close>, distinct, in the model's order (newest first).\<close>

definition ProjectViewSet_get_queryset :: "nat \<Rightarrow> tenant_db \<Rightarrow> project list" where
  "ProjectViewSet_get_queryset u t =
     sort_key (\<lambda>p. - project_created_at p) (filter (accessible u) (projects t))"

text \<open>\<^verbatim>\<open>self.get_object()\<close>: the project of that key in the queryset, or Http404.\<close>

definition get_object :: "nat \<Rightarrow> nat \<Rightarrow> tenant_db \<Rightarrow> project option" where
  "get_object u pk t = find (\<lambda>p. project_id p = pk) (ProjectViewSet_get_queryset u t)"

text \<open>
  The value of \<^verbatim>\<open>request.data.get('user_id')\<close>: missing, a number, or something that is
  not a number.
\<close>

datatype pk_value = PkNone | PkInt nat | PkInvalid string

definition User_objects_get :: "pk_value \<Rightarrow> tenant_db \<Rightarrow> error + user" where
  "User_objects_get v t =
     (case v of
        PkNone \<Rightarrow> Inl (DoesNotExist ''User matching query does not exist.'')
      | PkInvalid _ \<Rightarrow> Inl (ValueError ''Field id expected a number'')
      | PkInt n \<Rightarrow>
          (case find (\<lambda>x. user_id x = n) (users t) of
             None \<Rightarrow> Inl (DoesNotExist ''User matching query does not exist.'')
           | Some x \<Rightarrow> Inr x))"

definition update_project :: "nat \<Rightarrow> (project \<Rightarrow> project) \<Rightarrow> tenant_db \<Rightarrow> tenant_db" where
  "update_project pk f t =
     t\<lparr> projects := map (\<lambda>q. if project_id q = pk then f q else q) (projects t) \<rparr>"

text \<open>\<^verbatim>\<open>project.members.add(user)\<close> and \<^verbatim>\<open>project.members.remove(user)\<close>\<close>

definition members_add :: "nat \<Rightarrow> project \<Rightarrow> project" where
  "members_add x p = p\<lparr> members := List.insert x (members p) \<rparr>"

definition members_remove :: "nat \<Rightarrow> project \<Rightarrow> project" where
  "members_remove x p = p\<lparr> members := removeAll x (members p) \<rparr>"

definition add_member ::
  "nat \<Rightarrow> nat \<Rightarrow> pk_value \<Rightarrow> tenant_db \<Rightarrow> (error + http_status \<times> (string + project)) \<times> tenant_db" where
  "add_member u pk uid t =
     (case get_object u pk t of
        None \<Rightarrow> (Inr (HTTP_404_NOT_FOUND, Inl ''Not found.''), t)
      | Some project \<Rightarrow>
          if owner project \<noteq> u
          then (Inr (HTTP_403_FORBIDDEN, Inl ''Only project owner can add members''), t)
          else
            (case User_objects_get uid t of
               Inr x \<Rightarrow>
                 (Inr (HTTP_200_OK, Inr (members_add (user_id x) project)),
                  update_project (project_id project) (members_add (user_id x)) t)
             | Inl (DoesNotExist _) \<Rightarrow> (Inr (HTTP_404_NOT_FOUND, Inl ''User not found''), t)
             | Inl e \<Rightarrow> (Inl e, t)))"

definition remove_member ::
  "nat \<Rightarrow> nat \<Rightarrow> pk_value \<Rightarrow> tenant_db \<Rightarrow> (error + http_status \<times> (string + project)) \<times> tenant_db" where
  "remove_member u pk uid t =
     (case get_object u pk t of
        None \<Rightarrow> (Inr (HTTP_404_NOT_FOUND, Inl ''Not found.''), t)
      | Some project \<Rightarrow>
          if owner project \<noteq> u
          then (Inr (HTTP_403_FORBIDDEN, Inl ''Only project owner can remove members''), t)
          else
            (case User_objects_get uid t of
               Inr x \<Rightarrow>
                 (Inr (HTTP_200_OK, Inr (members_remove (user_id x) project)),
                  update_project (project_id project) (members_remove (user_id x)) t)
             | Inl (DoesNotExist _) \<Rightarrow> (Inr (HTTP_404_NOT_FOUND, Inl ''User not found''), t)
             | Inl e \<Rightarrow> (Inl e, t)))"

section \<open>Task creation (core/serializers.py, TaskSerializer)\<close>

record task_payload =
  payload_project :: nat
  payload_title :: string
  payload_priority :: string
  payload_status :: string
  payload_assigned_to_id :: "nat option"
  payload_due_date :: "int option"
  payload_completed_at :: "int option"

definition validate_project :: "nat \<Rightarrow> project \<Rightarrow> error + project" where
  "validate_project u v =
     (if owner v \<noteq> u \<and> u \<notin> set (members v)
      then Inl (ValidationError ''You don't have permission to create tasks in this project.'')
      else Inr v)"

text \<open>
  The field \<^verbatim>\<open>project\<close>: the key is resolved among all projects, then
  \<^verbatim>\<open>validate_project\<close> runs on the project found.
\<close>

definition project_field :: "nat \<Rightarrow> nat \<Rightarrow> tenant_db \<Rightarrow> error + project" where
  "project_field u pk t =
     (case find (\<lambda>p. project_id p = pk) (projects t) of
        None \<Rightarrow> Inl (ValidationError ''Invalid pk - object does not exist.'')
      | Some p \<Rightarrow> validate_project u p)"

text \<open>The declarative checks of the other fields, from the columns of the model.\<close>

definition other_field_errors :: "task_payload \<Rightarrow> tenant_db \<Rightarrow> error list" where
  "other_field_errors d t =
     (if payload_title d = [] then [ValidationError ''This field may not be blank.''] else [])
   @ (if length (payload_title d) > 255 then [ValidationError ''Ensure this field has no more than 255 characters.''] else [])
   @ (if payload_priority d \<in> set PRIORITY_CHOICES then [] else [ValidationError ''not a valid choice.''])
   @ (if payload_status d \<in> set STATUS_CHOICES then [] else [ValidationError ''not a valid choice.''])
   @ (case payload_assigned_to_id d of
        None \<Rightarrow> []
      | Some a \<Rightarrow> if a \<in> user_id ` set (users t) then []
                  else [ValidationError ''Invalid pk - object does not exist.''])"

text \<open>
  Posting a task: the serializer validates, then \<^verbatim>\<open>create\<close> sets \<^verbatim>\<open>created_by\<close> to the
  request's user and inserts the row (\<open>now\<close> is the clock).
\<close>

definition TaskViewSet_create ::
  "nat \<Rightarrow> task_payload \<Rightarrow> int \<Rightarrow> tenant_db \<Rightarrow> (http_status \<times> (error list + task)) \<times> tenant_db" where
  "TaskViewSet_create u d now t =
     (let errors = errors_of (project_field u (payload_project d) t) @ other_field_errors d t
      in if errors \<noteq> [] then ((HTTP_400_BAD_REQUEST, Inl errors), t)
         else
           let k = \<lparr> task_id = next_pk (map task_id (tasks t)),
                     task_project = payload_project d, title = payload_title d,
                     priority = payload_priority d, status = payload_status d,
                     assigned_to = payload_assigned_to_id d, created_by = u,
                     due_date = payload_due_date d, completed_at = payload_completed_at d,
                     created_at = now \<rparr>
           in ((HTTP_201_CREATED, Inr k), t\<lparr> tasks := tasks t @ [k] \<rparr>))"

section \<open>Dashboard (core/views.py, dashboard_stats)\<close>

record dashboard =
  total_projects :: nat
  dashboard_total_tasks :: nat
  my_tasks_total :: nat
  my_tasks_todo :: nat
  my_tasks_in_progress :: nat
  my_tasks_done :: nat
  dashboard_projects :: "project list"
  recent_tasks :: "task list"

definition dashboard_stats :: "nat \<Rightarrow> tenant_db \<Rightarrow> dashboard" where
  "dashboard_stats u t =
     (let projects_q = sort_key (\<lambda>p. - project_created_at p) (filter (accessible u) (projects t));
          all_tasks = filter (\<lambda>k. task_project k \<in> project_id ` set projects_q) (tasks t);
          my_tasks = filter (\<lambda>k. assigned_to k = Some u) all_tasks
      in \<lparr> total_projects = length projects_q,
           dashboard_total_tasks = length all_tasks,
           my_tasks_total = length my_tasks,
           my_tasks_todo = count_where (\<lambda>k. status k = ''todo'') my_tasks,
           my_tasks_in_progress = count_where (\<lambda>k. status k = ''in_progress'') my_tasks,
           my_tasks_done = count_where (\<lambda>k. status k = ''done'') my_tasks,
           dashboard_projects = take 5 projects_q,
           recent_tasks = take 5 (sort_key (\<lambda>k. - created_at k) my_tasks) \<rparr>)"

section \<open>Background jobs (core/tasks.py)\<close>

text \<open>
  \<^verbatim>\<open>with schema_context(name):\<close> of the tenant library: the active schema is switched for
  the block and the previous one is put back when the block is left, also by an exception.
\<close>

definition schema_context ::
  "string \<Rightarrow> (world \<Rightarrow> (error + 'a) \<times> world) \<Rightarrow> world \<Rightarrow> (error + 'a) \<times> world" where
  "schema_context s body w =
     (let previous = connection_schema_name w;
          (r, w') = body (w\<lparr> connection_schema_name := s \<rparr>)
      in (r, w'\<lparr> connection_schema_name := previous \<rparr>))"

text \<open>
  The block of \<^verbatim>\<open>send_task_reminder_email\<close>. \<open>smtp_ok\<close> says whether the mail server
  accepts the message; the mail is kept as recipient and subject.
\<close>

definition reminder_body :: "nat \<Rightarrow> bool \<Rightarrow> world \<Rightarrow> (error + string option) \<times> world" where
  "reminder_body tid smtp_ok w =
     (case current_tenant w of
        None \<Rightarrow> (Inl (ProgrammingError ''relation core_task does not exist''), w)
      | Some t \<Rightarrow>
          (case find (\<lambda>k. task_id k = tid) (tasks t) of
             None \<Rightarrow> (Inl (DoesNotExist ''Task matching query does not exist.''), w)
           | Some k \<Rightarrow>
               (case (case assigned_to k of
                        None \<Rightarrow> None
                      | Some a \<Rightarrow> find (\<lambda>x. user_id x = a) (users t)) of
                  None \<Rightarrow> (Inr None, w)
                | Some a \<Rightarrow>
                    if email a = [] then (Inr None, w)
                    else if \<not> smtp_ok then (Inl (MailError ''send_mail failed''), w)
                    else
                      (Inr (Some (''Email sent to '' @ email a)),
                       w\<lparr> outbox := outbox w @ [(email a, ''Task Reminder: '' @ title k)],
                          log := log w @ [''Reminder email sent in tenant ''
                                          @ connection_schema_name w] \<rparr>))))"

definition send_task_reminder_email ::
  "nat \<Rightarrow> string \<Rightarrow> bool \<Rightarrow> world \<Rightarrow> (error + string option) \<times> world" where
  "send_task_reminder_email tid tenant_schema smtp_ok w =
     (case schema_context tenant_schema (reminder_body tid smtp_ok) w of
        (Inl e, w') \<Rightarrow> (Inl e, w'\<lparr> log := log w' @ [''Error sending reminder''] \<rparr>)
      | (Inr r, w') \<Rightarrow> (Inr r, w'))"

text \<open>\<^verbatim>\<open>timedelta(days=days)\<close> in microseconds.\<close>

definition timedelta_days :: "int \<Rightarrow> int" where
  "timedelta_days days = days * 86400000000"

text \<open>
  \<^verbatim>\<open>status='done', completed_at__lt=cutoff_date\<close>: a comparison with a NULL completion
  time is not true in SQL.
\<close>

definition old_done :: "int \<Rightarrow> task \<Rightarrow> bool" where
  "old_done cutoff_date k =
     (status k = ''done'' \<and> (case completed_at k of None \<Rightarrow> False | Some c \<Rightarrow> c < cutoff_date))"

text \<open>\<^verbatim>\<open>Task.objects.filter(...).delete()\<close> on the active schema, with the number deleted.\<close>

definition delete_old_tasks :: "int \<Rightarrow> world \<Rightarrow> (error + nat) \<times> world" where
  "delete_old_tasks cutoff_date w =
     (case current_tenant w of
        None \<Rightarrow> (Inl (ProgrammingError ''relation core_task does not exist''), w)
      | Some t \<Rightarrow>
          (Inr (count_where (old_done cutoff_date) (tasks t)),
           store_tenant (t\<lparr> tasks := filter (\<lambda>k. \<not> old_done cutoff_date k) (tasks t) \<rparr>) w))"

text \<open>The two log lines of the clean-up (the count of the first is left out).\<close>

definition deleted_message :: "string \<Rightarrow> string" where
  "deleted_message s = ''Deleted old tasks from tenant '' @ s"

definition error_message :: "string \<Rightarrow> string" where
  "error_message s = ''Error cleaning up data for tenant '' @ s"

text \<open>
  The loop over the active tenants, each in its own \<^verbatim>\<open>try\<close>. The job returns the
  total of the deleted tasks (the source returns it inside a message).
\<close>

fun cleanup_tenants :: "int \<Rightarrow> company list \<Rightarrow> nat \<Rightarrow> world \<Rightarrow> nat \<times> world" where
  "cleanup_tenants cutoff_date [] total_deleted w = (total_deleted, w)"
| "cleanup_tenants cutoff_date (tenant' # rest) total_deleted w =
     (case schema_context (schema_name tenant') (delete_old_tasks cutoff_date) w of
        (Inr deleted_count, w') \<Rightarrow>
          cleanup_tenants cutoff_date rest (total_deleted + deleted_count)
            (if deleted_count > 0
             then w'\<lparr> log := log w' @ [deleted_message (schema_name tenant')] \<rparr>
             else w')
      | (Inl e, w') \<Rightarrow>
          cleanup_tenants cutoff_date rest total_deleted
            (w'\<lparr> log := log w' @ [error_message (schema_name tenant')] \<rparr>))"

definition cleanup_old_data :: "int \<Rightarrow> int \<Rightarrow> world \<Rightarrow> nat \<times> world" where
  "cleanup_old_data now days w =
     cleanup_tenants (now - timedelta_days days) (filter is_active (companies (db w))) 0 w"

text \<open>What the deletion leaves of the tables of one schema.\<close>

definition without_old_done :: "int \<Rightarrow> tenant_db \<Rightarrow> tenant_db" where
  "without_old_done cutoff_date t =
     t\<lparr> tasks := filter (\<lambda>k. \<not> old_done cutoff_date k) (tasks t) \<rparr>"

section \<open>Example data\<close>

text \<open>
  The scenario of the specification: company Acme (schema \<^verbatim>\<open>acme\<close>) with the admin, a
  member and an outsider, the project Launch owned by the admin, and tasks of several ages.
  The clock stands at day 100.
\<close>

definition ex_admin :: user where
  "ex_admin = \<lparr> user_id = 1, username = ''admin'', email = ''admin@acme.example.com'',
                password = ''SecurePass123!'', is_staff = True, is_superuser = True \<rparr>"

definition ex_bob :: user where
  "ex_bob = \<lparr> user_id = 2, username = ''bob'', email = ''bob@acme.example.com'',
              password = ''TestPass123!'', is_staff = False, is_superuser = False \<rparr>"

definition ex_eve :: user where
  "ex_eve = \<lparr> user_id = 3, username = ''eve'', email = ''eve@acme.example.com'',
              password = ''TestPass123!'', is_staff = False, is_superuser = False \<rparr>"

definition ex_launch :: project where
  "ex_launch = \<lparr> project_id = 1, project_name = ''Launch'', project_status = ''planning'',
                 owner = 1, members = [2], project_created_at = 5 \<rparr>"

definition ex_task :: "nat \<Rightarrow> string \<Rightarrow> string \<Rightarrow> nat option \<Rightarrow> int option \<Rightarrow> task" where
  "ex_task i st pr a c =
     \<lparr> task_id = i, task_project = 1, title = ''Write spec'', priority = pr, status = st,
       assigned_to = a, created_by = 1, due_date = None, completed_at = c,
       created_at = int i \<rparr>"

definition ex_now :: int where
  "ex_now = timedelta_days 100"

definition ex_tasks :: "task list" where
  "ex_tasks =
     [ex_task 1 ''done'' ''high'' (Some 1) (Some (timedelta_days 9)),
      ex_task 2 ''done'' ''low'' (Some 1) (Some (timedelta_days 11)),
      ex_task 3 ''done'' ''medium'' None None,
      ex_task 4 ''todo'' ''urgent'' (Some 2) (Some (timedelta_days 9)),
      ex_task 5 ''review'' ''high'' (Some 1) None,
      ex_task 6 ''in_progress'' ''medium'' (Some 2) None]"

definition ex_acme :: tenant_db where
  "ex_acme = \<lparr> users = [ex_admin, ex_bob, ex_eve], profiles = [], projects = [ex_launch],
               tasks = ex_tasks \<rparr>"

definition ex_idle :: tenant_db where
  "ex_idle = \<lparr> users = [], profiles = [], projects = [ex_launch],
               tasks = [ex_task 1 ''done'' ''high'' None (Some (timedelta_days 9))] \<rparr>"

text \<open>A schema left behind by a company that was deleted (schemas are never dropped).\<close>

definition ex_legacy :: tenant_db where
  "ex_legacy = \<lparr> users = [ex_admin], profiles = [], projects = [], tasks = [] \<rparr>"

definition ex_company :: "nat \<Rightarrow> string \<Rightarrow> bool \<Rightarrow> company" where
  "ex_company i s a =
     \<lparr> company_id = i, name = s, schema_name = s, subscription_plan = ''free'', is_active = a \<rparr>"

definition ex_db :: database where
  "ex_db =
     \<lparr> companies = [ex_company 1 ''ghost'' True, ex_company 2 ''acme'' True,
                    ex_company 3 ''idle'' False],
       domains = [\<lparr> domain_id = 1, domain = ''acme.example.com'', tenant = 2,
                    is_primary = True \<rparr>],
       schemas = [(''public'', empty_tenant), (''acme'', ex_acme), (''idle'', ex_idle),
                  (''legacy'', ex_legacy)] \<rparr>"

definition ex_world :: world where
  "ex_world = \<lparr> db = ex_db, connection_schema_name = ''public'', log = [], outbox = [] \<rparr>"

definition ex_payload :: task_payload where
  "ex_payload =
     \<lparr> payload_project = 1, payload_title = ''Write spec'', payload_priority = ''high'',
       payload_status = ''todo'', payload_assigned_to_id = Some 3, payload_due_date = None,
       payload_completed_at = None \<rparr>"

definition ex_registration :: registration_data where
  "ex_registration =
     \<lparr> company_name = ''Beta'', reg_schema_name = ''Beta'', domain_url = ''beta.Example.com'',
       admin_username = ''admin'', admin_email = ''admin@beta.example.com'',
       admin_password = ''SecurePass123!'', reg_subscription_plan = ''basic'' \<rparr>"



section \<open>Theorems\<close>

lemma count_four_way:
  assumes "\<forall>x \<in> set xs. f x = a \<or> f x = b \<or> f x = c \<or> f x = d"
    and "distinct [a, b, c, d]"
  shows "count_where (\<lambda>x. f x = a) xs + count_where (\<lambda>x. f x = b) xs
         + count_where (\<lambda>x. f x = c) xs + count_where (\<lambda>x. f x = d) xs = length xs"
  using assms by (induction xs) (auto simp: count_where_def)

subsection \<open>Project statistics\<close>

text \<open>
  Claim C10. For every project whose tasks each carry one of the four enumerated statuses
  and one of the four enumerated priorities, the counts per status returned by the
  statistics action (todo, in_progress, review, done) sum to total_tasks, and so do the
  counts per priority (low, medium, high, urgent).
\<close>

theorem statistics_counts_sum:
  assumes "\<forall>k \<in> set (project_tasks t p).
             status k \<in> set STATUS_CHOICES \<and> priority k \<in> set PRIORITY_CHOICES"
  shows "todo (statistics t p) + in_progress (statistics t p) + review (statistics t p)
           + done_count (statistics t p) = total_tasks (statistics t p)
       \<and> by_priority_low (statistics t p) + by_priority_medium (statistics t p)
           + by_priority_high (statistics t p) + by_priority_urgent (statistics t p)
         = total_tasks (statistics t p)"
proof -
  let ?ts = "project_tasks t p"
  have s: "\<forall>k \<in> set ?ts. status k = ''todo'' \<or> status k = ''in_progress''
             \<or> status k = ''review'' \<or> status k = ''done''"
    using assms by (simp add: STATUS_CHOICES_def)
  have p: "\<forall>k \<in> set ?ts. priority k = ''low'' \<or> priority k = ''medium''
             \<or> priority k = ''high'' \<or> priority k = ''urgent''"
    using assms by (simp add: PRIORITY_CHOICES_def)
  have "distinct [''todo'', ''in_progress'', ''review'', ''done'']" by simp
  from count_four_way [OF s this]
  have 1: "todo (statistics t p) + in_progress (statistics t p) + review (statistics t p)
           + done_count (statistics t p) = total_tasks (statistics t p)"
    by (simp add: statistics_def Let_def)
  have "distinct [''low'', ''medium'', ''high'', ''urgent'']" by simp
  from count_four_way [OF p this]
  have 2: "by_priority_low (statistics t p) + by_priority_medium (statistics t p)
           + by_priority_high (statistics t p) + by_priority_urgent (statistics t p)
         = total_tasks (statistics t p)"
    by (simp add: statistics_def Let_def)
  from 1 2 show ?thesis by simp
qed

lemma ex_project_tasks: "project_tasks ex_acme ex_launch = ex_tasks"
  by (simp add: project_tasks_def ex_acme_def ex_launch_def ex_tasks_def ex_task_def)

theorem statistics_counts_sum_witness:
  "total_tasks (statistics ex_acme ex_launch) = 6
   \<and> todo (statistics ex_acme ex_launch) + in_progress (statistics ex_acme ex_launch)
       + review (statistics ex_acme ex_launch) + done_count (statistics ex_acme ex_launch) = 6
   \<and> by_priority_low (statistics ex_acme ex_launch)
       + by_priority_medium (statistics ex_acme ex_launch)
       + by_priority_high (statistics ex_acme ex_launch)
       + by_priority_urgent (statistics ex_acme ex_launch) = 6"
proof -
  have h: "\<forall>k \<in> set (project_tasks ex_acme ex_launch).
             status k \<in> set STATUS_CHOICES \<and> priority k \<in> set PRIORITY_CHOICES"
    by (simp add: ex_project_tasks ex_tasks_def ex_task_def STATUS_CHOICES_def
          PRIORITY_CHOICES_def)
  have n: "total_tasks (statistics ex_acme ex_launch) = 6"
    by (simp add: statistics_def ex_project_tasks Let_def ex_tasks_def)
  from statistics_counts_sum [OF h] n show ?thesis by simp
qed

subsection \<open>Clean-up of old tasks\<close>

text \<open>
  One pass of the loop body changes only the tables of the schema it enters, and only by
  removing the old done tasks; it fails exactly when the schema does not exist.
\<close>

lemma without_old_done_idem [simp]:
  "without_old_done c (without_old_done c t) = without_old_done c t"
  by (simp add: without_old_done_def)

lemma cleanup_step:
  assumes "schema_context s (delete_old_tasks c) w = (r, w')"
  shows "connection_schema_name w' = connection_schema_name w"
    and "companies (db w') = companies (db w)"
    and "domains (db w') = domains (db w)"
    and "outbox w' = outbox w"
    and "log w' = log w"
    and "map_of (schemas (db w')) x =
           (if x = s then map_option (without_old_done c) (map_of (schemas (db w)) x)
            else map_of (schemas (db w)) x)"
    and "(\<exists>e. r = Inl e) = (map_of (schemas (db w)) s = None)"
  using assms
  by (auto simp: schema_context_def delete_old_tasks_def current_tenant_def store_tenant_def
        without_old_done_def update_conv' split: option.splits)

lemma cleanup_tenants_frame:
  "connection_schema_name (snd (cleanup_tenants c cs n w)) = connection_schema_name w
   \<and> companies (db (snd (cleanup_tenants c cs n w))) = companies (db w)
   \<and> domains (db (snd (cleanup_tenants c cs n w))) = domains (db w)
   \<and> outbox (snd (cleanup_tenants c cs n w)) = outbox w
   \<and> set (log w) \<subseteq> set (log (snd (cleanup_tenants c cs n w)))"
proof (induction cs arbitrary: n w)
  case Nil
  show ?case by simp
next
  case (Cons a cs)
  obtain r w' where st: "schema_context (schema_name a) (delete_old_tasks c) w = (r, w')"
    by (cases "schema_context (schema_name a) (delete_old_tasks c) w")
  note fr = cleanup_step(1-5) [OF st]
  show ?case
  proof (cases r)
    case (Inl e)
    with st fr Cons.IH [of n "w'\<lparr> log := log w' @ [error_message (schema_name a)] \<rparr>"]
    show ?thesis by auto
  next
    case (Inr k)
    with st fr Cons.IH [of "n + k" "w'\<lparr> log := log w' @ [deleted_message (schema_name a)] \<rparr>"]
      Cons.IH [of "n + k" w']
    show ?thesis by auto
  qed
qed

lemma cleanup_tenants_schemas:
  "map_of (schemas (db (snd (cleanup_tenants c cs n w)))) x =
     (if x \<in> schema_name ` set cs then map_option (without_old_done c) (map_of (schemas (db w)) x)
      else map_of (schemas (db w)) x)"
proof (induction cs arbitrary: n w)
  case Nil
  show ?case by simp
next
  case (Cons a cs)
  obtain r w' where st: "schema_context (schema_name a) (delete_old_tasks c) w = (r, w')"
    by (cases "schema_context (schema_name a) (delete_old_tasks c) w")
  note m = cleanup_step(6) [OF st, of x]
  show ?case
  proof (cases r)
    case (Inl e)
    with st m Cons.IH [of n "w'\<lparr> log := log w' @ [error_message (schema_name a)] \<rparr>"]
    show ?thesis by (auto simp: option.map_comp comp_def split: option.splits)
  next
    case (Inr k)
    with st m Cons.IH [of "n + k" "w'\<lparr> log := log w' @ [deleted_message (schema_name a)] \<rparr>"]
      Cons.IH [of "n + k" w']
    show ?thesis by (auto simp: option.map_comp comp_def split: option.splits)
  qed
qed

lemma cleanup_tenants_logs_failure:
  assumes "a \<in> set cs" and "map_of (schemas (db w)) (schema_name a) = None"
  shows "error_message (schema_name a)
           \<in> set (log (snd (cleanup_tenants c cs n w)))"
  using assms
proof (induction cs arbitrary: n w)
  case Nil
  then show ?case by simp
next
  case (Cons b cs)
  obtain r w' where st: "schema_context (schema_name b) (delete_old_tasks c) w = (r, w')"
    by (cases "schema_context (schema_name b) (delete_old_tasks c) w")
  note fr = cleanup_step [OF st]
  let ?we = "w'\<lparr> log := log w' @ [error_message (schema_name b)] \<rparr>"
  let ?wi = "w'\<lparr> log := log w' @ [deleted_message (schema_name b)] \<rparr>"
  have none': "map_of (schemas (db w')) (schema_name a) = None"
    using fr(6) [of "schema_name a"] Cons.prems(2) by (cases "schema_name a = schema_name b") simp_all
  show ?case
  proof (cases "schema_name a = schema_name b")
    case True
    then have "\<exists>e. r = Inl e" using fr(7) Cons.prems(2) by simp
    then obtain e where r: "r = Inl e" by blast
    have "(error_message (schema_name a)) \<in> set (log ?we)"
      using True by simp
    with cleanup_tenants_frame [of c cs n ?we] st r show ?thesis by auto
  next
    case False
    then have ain: "a \<in> set cs" using Cons.prems(1) by auto
    show ?thesis
    proof (cases r)
      case (Inl e)
      with st Cons.IH [OF ain, of ?we n] none' show ?thesis by simp
    next
      case (Inr k)
      with st Cons.IH [OF ain, of ?wi "n + k"] Cons.IH [OF ain, of w' "n + k"] none'
      show ?thesis by auto
    qed
  qed
qed

lemma ex_companies: "companies (db ex_world) =
    [ex_company 1 ''ghost'' True, ex_company 2 ''acme'' True, ex_company 3 ''idle'' False]"
  by (simp add: ex_world_def ex_db_def)

lemma ex_schemas: "schemas (db ex_world) =
    [(''public'', empty_tenant), (''acme'', ex_acme), (''idle'', ex_idle),
     (''legacy'', ex_legacy)]"
  by (simp add: ex_world_def ex_db_def)

lemma ex_company_simps [simp]:
  "schema_name (ex_company i s a) = s" "is_active (ex_company i s a) = a"
  by (simp_all add: ex_company_def)

lemma ex_kept:
  "filter (\<lambda>k. \<not> (status k = ''done''
        \<and> (\<exists>x. completed_at k = Some x \<and> x < ex_now - timedelta_days 90))) (tasks ex_acme)
   = [ex_task 2 ''done'' ''low'' (Some 1) (Some (timedelta_days 11)),
             ex_task 3 ''done'' ''medium'' None None,
             ex_task 4 ''todo'' ''urgent'' (Some 2) (Some (timedelta_days 9)),
             ex_task 5 ''review'' ''high'' (Some 1) None,
             ex_task 6 ''in_progress'' ''medium'' (Some 2) None]"
  by (simp add: ex_acme_def ex_tasks_def ex_task_def ex_now_def timedelta_days_def)

text \<open>
  Claim C8. \<^verbatim>\<open>cleanup_old_data(days)\<close> deletes, in every active namespace, exactly the
  tasks whose status is "done" and whose completion time is strictly older than the cutoff
  (now minus days); the other tables and the namespaces of no active company are left as
  they were; a namespace that fails (its schema cannot be read) is logged and skipped, and
  the other namespaces are still processed. With days = 90 (the witness), a done task
  completed 91 days ago is deleted and one completed 89 days ago is retained.
\<close>

theorem cleanup_old_data_deletes_exactly:
  assumes "cleanup_old_data now days w = (n, w')"
  shows "(\<forall>c t. c \<in> set (companies (db w)) \<and> is_active c
              \<and> map_of (schemas (db w)) (schema_name c) = Some t \<longrightarrow>
            (\<exists>t'. map_of (schemas (db w')) (schema_name c) = Some t'
               \<and> tasks t' = filter (\<lambda>k. \<not> (status k = ''done''
                     \<and> (\<exists>x. completed_at k = Some x \<and> x < now - timedelta_days days)))
                     (tasks t)
               \<and> users t' = users t \<and> profiles t' = profiles t \<and> projects t' = projects t))
       \<and> (\<forall>c. c \<in> set (companies (db w)) \<and> is_active c
              \<and> map_of (schemas (db w)) (schema_name c) = None \<longrightarrow>
            error_message (schema_name c) \<in> set (log w'))
       \<and> (\<forall>s. (\<forall>c \<in> set (companies (db w)). is_active c \<longrightarrow> schema_name c \<noteq> s) \<longrightarrow>
            map_of (schemas (db w')) s = map_of (schemas (db w)) s)"
proof -
  let ?cut = "now - timedelta_days days"
  let ?cs = "filter is_active (companies (db w))"
  have w': "w' = snd (cleanup_tenants ?cut ?cs 0 w)"
    using assms by (simp add: cleanup_old_data_def)
  have old: "old_done ?cut = (\<lambda>k. status k = ''done''
                 \<and> (\<exists>x. completed_at k = Some x \<and> x < ?cut))"
    by (auto simp: old_done_def fun_eq_iff split: option.splits)
  have a: "\<exists>t'. map_of (schemas (db w')) (schema_name c) = Some t'
               \<and> tasks t' = filter (\<lambda>k. \<not> (status k = ''done''
                     \<and> (\<exists>x. completed_at k = Some x \<and> x < ?cut))) (tasks t)
               \<and> users t' = users t \<and> profiles t' = profiles t \<and> projects t' = projects t"
    if "c \<in> set (companies (db w))" "is_active c"
       "map_of (schemas (db w)) (schema_name c) = Some t" for c t
  proof -
    have "schema_name c \<in> schema_name ` set ?cs" using that by auto
    then have "map_of (schemas (db w')) (schema_name c) = Some (without_old_done ?cut t)"
      using that(3) by (simp add: w' cleanup_tenants_schemas)
    then show ?thesis by (simp add: without_old_done_def old)
  qed
  have b: "error_message (schema_name c) \<in> set (log w')"
    if "c \<in> set (companies (db w))" "is_active c"
       "map_of (schemas (db w)) (schema_name c) = None" for c
  proof -
    have "c \<in> set ?cs" using that by simp
    from cleanup_tenants_logs_failure [OF this that(3)] show ?thesis by (simp add: w')
  qed
  have c: "map_of (schemas (db w')) s = map_of (schemas (db w)) s"
    if "\<forall>c \<in> set (companies (db w)). is_active c \<longrightarrow> schema_name c \<noteq> s" for s
  proof -
    have "s \<notin> schema_name ` set ?cs" using that by auto
    then show ?thesis by (simp add: w' cleanup_tenants_schemas)
  qed
  from a b c show ?thesis by blast
qed

theorem cleanup_old_data_deletes_exactly_witness:
  "map_option tasks (map_of (schemas (db (snd (cleanup_old_data ex_now 90 ex_world)))) ''acme'')
     = Some [ex_task 2 ''done'' ''low'' (Some 1) (Some (timedelta_days 11)),
             ex_task 3 ''done'' ''medium'' None None,
             ex_task 4 ''todo'' ''urgent'' (Some 2) (Some (timedelta_days 9)),
             ex_task 5 ''review'' ''high'' (Some 1) None,
             ex_task 6 ''in_progress'' ''medium'' (Some 2) None]
   \<and> error_message ''ghost'' \<in> set (log (snd (cleanup_old_data ex_now 90 ex_world)))
   \<and> map_of (schemas (db (snd (cleanup_old_data ex_now 90 ex_world)))) ''idle'' = Some ex_idle"
proof -
  obtain n w' where r: "cleanup_old_data ex_now 90 ex_world = (n, w')"
    by (cases "cleanup_old_data ex_now 90 ex_world")
  note th = cleanup_old_data_deletes_exactly [OF r]
  have acme: "ex_company 2 ''acme'' True \<in> set (companies (db ex_world))
      \<and> is_active (ex_company 2 ''acme'' True)
      \<and> map_of (schemas (db ex_world)) (schema_name (ex_company 2 ''acme'' True)) = Some ex_acme"
    by (simp add: ex_companies ex_schemas)
  have ghost: "ex_company 1 ''ghost'' True \<in> set (companies (db ex_world))
      \<and> is_active (ex_company 1 ''ghost'' True)
      \<and> map_of (schemas (db ex_world)) (schema_name (ex_company 1 ''ghost'' True)) = None"
    by (simp add: ex_companies ex_schemas)
  have idle: "\<forall>c \<in> set (companies (db ex_world)). is_active c \<longrightarrow> schema_name c \<noteq> ''idle''"
    by (simp add: ex_companies)
  from th [THEN conjunct1, rule_format, OF acme]
  obtain t' where t': "map_of (schemas (db w')) ''acme'' = Some t'"
    "tasks t' = filter (\<lambda>k. \<not> (status k = ''done''
        \<and> (\<exists>x. completed_at k = Some x \<and> x < ex_now - timedelta_days 90))) (tasks ex_acme)"
    by auto
  from th [THEN conjunct2, THEN conjunct1, rule_format, OF ghost]
  have 2: "error_message ''ghost'' \<in> set (log w')" by simp
  from th [THEN conjunct2, THEN conjunct2, THEN spec, of "''idle''"] idle
  have 3: "map_of (schemas (db w')) ''idle'' = Some ex_idle"
    by (simp add: ex_schemas)
  from t' ex_kept 2 3 r show ?thesis by simp
qed

text \<open>
  Claim C9. \<^verbatim>\<open>cleanup_old_data\<close> never deletes a task whose \<^verbatim>\<open>completed_at\<close> is absent:
  a task with a null completion time is still in its namespace afterwards, whatever its
  status and age, because the comparison with the cutoff is not true of a null.
\<close>

theorem cleanup_keeps_null_completion:
  assumes "cleanup_old_data now days w = (n, w')"
    and "map_of (schemas (db w)) s = Some t"
    and "k \<in> set (tasks t)"
    and "completed_at k = None"
  shows "\<exists>t'. map_of (schemas (db w')) s = Some t' \<and> k \<in> set (tasks t')"
proof -
  let ?cut = "now - timedelta_days days"
  let ?cs = "filter is_active (companies (db w))"
  have w': "w' = snd (cleanup_tenants ?cut ?cs 0 w)"
    using assms(1) by (simp add: cleanup_old_data_def)
  have keep: "\<not> old_done ?cut k"
    using assms(4) by (simp add: old_done_def)
  then have "k \<in> set (tasks (without_old_done ?cut t))"
    using assms(3) by (simp add: without_old_done_def)
  then show ?thesis
    using assms(2,3) by (simp add: w' cleanup_tenants_schemas)
qed

theorem cleanup_keeps_null_completion_witness:
  "\<exists>t'. map_of (schemas (db (snd (cleanup_old_data ex_now 90 ex_world)))) ''acme'' = Some t'
       \<and> ex_task 3 ''done'' ''medium'' None None \<in> set (tasks t')"
proof -
  obtain n w' where r: "cleanup_old_data ex_now 90 ex_world = (n, w')"
    by (cases "cleanup_old_data ex_now 90 ex_world")
  have s: "map_of (schemas (db ex_world)) ''acme'' = Some ex_acme"
    by (simp add: ex_schemas)
  have k: "ex_task 3 ''done'' ''medium'' None None \<in> set (tasks ex_acme)"
    by (simp add: ex_acme_def ex_tasks_def)
  have c: "completed_at (ex_task 3 ''done'' ''medium'' None None) = None"
    by (simp add: ex_task_def)
  from cleanup_keeps_null_completion [OF r s k c] r show ?thesis by simp
qed

subsection \<open>Projects: membership and task creation\<close>

text \<open>Looking a row up by its primary key.\<close>

lemma find_in: "find P xs = Some x \<Longrightarrow> x \<in> set xs \<and> P x"
  by (induction xs) (auto split: if_splits)

lemma find_unique:
  assumes "p \<in> set xs" and "P p" and "\<forall>q \<in> set xs. P q \<longrightarrow> q = p"
  shows "find P xs = Some p"
proof (cases "find P xs")
  case None
  with assms(1,2) show ?thesis by (auto simp: find_None_iff)
next
  case (Some x)
  from find_in [OF Some] assms(3) show ?thesis using Some by auto
qed

lemma find_map_keep:
  assumes "\<And>x. P (f x) = P x"
  shows "find P (map f xs) = map_option f (find P xs)"
  by (induction xs) (simp_all add: assms)

lemma queryset_set:
  "set (ProjectViewSet_get_queryset u t) = {p \<in> set (projects t). accessible u p}"
  by (simp add: ProjectViewSet_get_queryset_def)

lemma get_object_unique:
  assumes "p \<in> set (projects t)" and "project_id p = pk"
    and "\<forall>q \<in> set (projects t). project_id q = pk \<longrightarrow> q = p"
  shows "get_object u pk t = (if accessible u p then Some p else None)"
proof (cases "accessible u p")
  case True
  have "find (\<lambda>q. project_id q = pk) (ProjectViewSet_get_queryset u t) = Some p"
  proof (rule find_unique)
    show "p \<in> set (ProjectViewSet_get_queryset u t)"
      using assms(1) True by (simp add: queryset_set)
    show "project_id p = pk" by (rule assms(2))
    show "\<forall>q \<in> set (ProjectViewSet_get_queryset u t). project_id q = pk \<longrightarrow> q = p"
      using assms(3) by (simp add: queryset_set)
  qed
  with True show ?thesis by (simp add: get_object_def)
next
  case False
  have "\<not> (\<exists>q. q \<in> set (ProjectViewSet_get_queryset u t) \<and> project_id q = pk)"
    using assms(3) False by (auto simp: queryset_set)
  then have "find (\<lambda>q. project_id q = pk) (ProjectViewSet_get_queryset u t) = None"
    by (simp add: find_None_iff)
  with False show ?thesis by (simp add: get_object_def)
qed

lemma User_objects_get_missing:
  assumes "uid = PkNone \<or> (\<exists>n. uid = PkInt n \<and> n \<notin> user_id ` set (users t))"
  shows "User_objects_get uid t = Inl (DoesNotExist ''User matching query does not exist.'')"
proof -
  have "find (\<lambda>x. user_id x = n) (users t) = None" if "n \<notin> user_id ` set (users t)" for n
    using that by (auto simp add: find_None_iff)
  with assms show ?thesis
    by (auto simp: User_objects_get_def)
qed

lemma User_objects_get_found:
  assumes "n \<in> user_id ` set (users t)"
  shows "\<exists>x. User_objects_get (PkInt n) t = Inr x \<and> user_id x = n"
proof (cases "find (\<lambda>x. user_id x = n) (users t)")
  case None
  then have "\<not> (\<exists>x. x \<in> set (users t) \<and> user_id x = n)" by (simp add: find_None_iff)
  with assms show ?thesis by auto
next
  case (Some x)
  with find_in [OF Some] show ?thesis by (simp add: User_objects_get_def)
qed

lemma add_member_not_owner:
  assumes "get_object u pk t = Some p" and "owner p \<noteq> u"
  shows "add_member u pk uid t
           = (Inr (HTTP_403_FORBIDDEN, Inl ''Only project owner can add members''), t)"
  using assms by (simp add: add_member_def)

lemma remove_member_not_owner:
  assumes "get_object u pk t = Some p" and "owner p \<noteq> u"
  shows "remove_member u pk uid t
           = (Inr (HTTP_403_FORBIDDEN, Inl ''Only project owner can remove members''), t)"
  using assms by (simp add: remove_member_def)

lemma add_member_no_object:
  assumes "get_object u pk t = None"
  shows "add_member u pk uid t = (Inr (HTTP_404_NOT_FOUND, Inl ''Not found.''), t)"
  using assms by (simp add: add_member_def)

lemma remove_member_no_object:
  assumes "get_object u pk t = None"
  shows "remove_member u pk uid t = (Inr (HTTP_404_NOT_FOUND, Inl ''Not found.''), t)"
  using assms by (simp add: remove_member_def)

lemma add_member_no_user:
  assumes "get_object u pk t = Some p" and "owner p = u"
    and "User_objects_get uid t = Inl (DoesNotExist m)"
  shows "add_member u pk uid t = (Inr (HTTP_404_NOT_FOUND, Inl ''User not found''), t)"
  using assms by (simp add: add_member_def)

lemma remove_member_no_user:
  assumes "get_object u pk t = Some p" and "owner p = u"
    and "User_objects_get uid t = Inl (DoesNotExist m)"
  shows "remove_member u pk uid t = (Inr (HTTP_404_NOT_FOUND, Inl ''User not found''), t)"
  using assms by (simp add: remove_member_def)

lemma find_pk:
  assumes "p \<in> set (projects t)" and "project_id p = pk"
    and "\<forall>q \<in> set (projects t). project_id q = pk \<longrightarrow> q = p"
  shows "find (\<lambda>q. project_id q = pk) (projects t) = Some p"
proof (rule find_unique)
  show "p \<in> set (projects t)" by (rule assms(1))
  show "project_id p = pk" by (rule assms(2))
  show "\<forall>q \<in> set (projects t). project_id q = pk \<longrightarrow> q = p" by (rule assms(3))
qed

lemma project_field_unique:
  assumes "p \<in> set (projects t)" and "project_id p = pk"
    and "\<forall>q \<in> set (projects t). project_id q = pk \<longrightarrow> q = p"
  shows "project_field u pk t = validate_project u p"
  by (simp add: project_field_def find_pk [OF assms])

lemma members_add_id [simp]: "project_id (members_add x q) = project_id q"
  by (simp add: members_add_def)

lemma find_pk_update:
  assumes "find (\<lambda>q. project_id q = pk) (projects t) = Some p"
  shows "find (\<lambda>q. project_id q = pk)
           (map (\<lambda>q. if project_id q = pk then members_add x q else q) (projects t))
         = Some (members_add x p)"
proof -
  let ?f = "\<lambda>q. if project_id q = pk then members_add x q else q"
  have fm: "find (\<lambda>q. project_id q = pk) (map ?f (projects t))
        = map_option ?f (find (\<lambda>q. project_id q = pk) (projects t))"
    by (rule find_map_keep) simp
  have "project_id p = pk" using find_in [OF assms] by simp
  then have "?f p = members_add x p" by simp
  with fm assms show ?thesis by simp
qed

lemma project_field_after_update:
  assumes "p \<in> set (projects t)" and "project_id p = pk"
    and "\<forall>q \<in> set (projects t). project_id q = pk \<longrightarrow> q = p"
  shows "project_field u pk (update_project pk (members_add x) t)
           = validate_project u (members_add x p)"
  by (simp add: project_field_def update_project_def find_pk_update [OF find_pk [OF assms]])

lemma other_field_errors_update_project [simp]:
  "other_field_errors d (update_project pk f t) = other_field_errors d t"
  by (cases "payload_assigned_to_id d") (simp_all add: other_field_errors_def update_project_def)

lemma ex_launch_in: "ex_launch \<in> set (projects ex_acme) \<and> project_id ex_launch = 1
   \<and> (\<forall>q \<in> set (projects ex_acme). project_id q = 1 \<longrightarrow> q = ex_launch)"
  by (simp add: ex_acme_def ex_launch_def)

text \<open>
  Claim C7, as the code has it. \<^verbatim>\<open>add_member\<close> and \<^verbatim>\<open>remove_member\<close> succeed only for
  the project's owner. A caller who is a member but not the owner gets a forbidden result;
  a caller who is neither owner nor member gets a not-found result, because the project is
  not in the caller's queryset; an owner's request whose target identity does not exist
  (no user id, or the id of no user) gets a not-found result. In all three cases the
  tables, and so the membership set, are unchanged.
\<close>

theorem member_actions_owner_only:
  assumes "p \<in> set (projects t)" and "project_id p = pk"
    and "\<forall>q \<in> set (projects t). project_id q = pk \<longrightarrow> q = p"
  shows "(owner p \<noteq> u \<and> u \<in> set (members p) \<longrightarrow>
            add_member u pk uid t
              = (Inr (HTTP_403_FORBIDDEN, Inl ''Only project owner can add members''), t)
          \<and> remove_member u pk uid t
              = (Inr (HTTP_403_FORBIDDEN, Inl ''Only project owner can remove members''), t))
       \<and> (owner p \<noteq> u \<and> u \<notin> set (members p) \<longrightarrow>
            add_member u pk uid t = (Inr (HTTP_404_NOT_FOUND, Inl ''Not found.''), t)
          \<and> remove_member u pk uid t = (Inr (HTTP_404_NOT_FOUND, Inl ''Not found.''), t))
       \<and> (owner p = u
            \<and> (uid = PkNone \<or> (\<exists>n. uid = PkInt n \<and> n \<notin> user_id ` set (users t))) \<longrightarrow>
            add_member u pk uid t = (Inr (HTTP_404_NOT_FOUND, Inl ''User not found''), t)
          \<and> remove_member u pk uid t = (Inr (HTTP_404_NOT_FOUND, Inl ''User not found''), t))"
proof -
  note g = get_object_unique [OF assms, of u]
  have a: "add_member u pk uid t
              = (Inr (HTTP_403_FORBIDDEN, Inl ''Only project owner can add members''), t)
          \<and> remove_member u pk uid t
              = (Inr (HTTP_403_FORBIDDEN, Inl ''Only project owner can remove members''), t)"
    if "owner p \<noteq> u" "u \<in> set (members p)"
  proof -
    have "get_object u pk t = Some p" using g that by (simp add: accessible_def)
    from add_member_not_owner [OF this that(1)] remove_member_not_owner [OF this that(1)]
    show ?thesis by simp
  qed
  have b: "add_member u pk uid t = (Inr (HTTP_404_NOT_FOUND, Inl ''Not found.''), t)
          \<and> remove_member u pk uid t = (Inr (HTTP_404_NOT_FOUND, Inl ''Not found.''), t)"
    if "owner p \<noteq> u" "u \<notin> set (members p)"
  proof -
    have "get_object u pk t = None" using g that by (simp add: accessible_def)
    from add_member_no_object [OF this] remove_member_no_object [OF this]
    show ?thesis by simp
  qed
  have c: "add_member u pk uid t = (Inr (HTTP_404_NOT_FOUND, Inl ''User not found''), t)
          \<and> remove_member u pk uid t = (Inr (HTTP_404_NOT_FOUND, Inl ''User not found''), t)"
    if "owner p = u" "uid = PkNone \<or> (\<exists>n. uid = PkInt n \<and> n \<notin> user_id ` set (users t))"
  proof -
    have o: "get_object u pk t = Some p" using g that(1) by (simp add: accessible_def)
    note m = User_objects_get_missing [OF that(2)]
    from add_member_no_user [OF o that(1) m] remove_member_no_user [OF o that(1) m]
    show ?thesis by simp
  qed
  from a b c show ?thesis by blast
qed

theorem member_actions_owner_only_witness:
  "add_member 2 1 (PkInt 3) ex_acme
     = (Inr (HTTP_403_FORBIDDEN, Inl ''Only project owner can add members''), ex_acme)
   \<and> remove_member 2 1 (PkInt 2) ex_acme
     = (Inr (HTTP_403_FORBIDDEN, Inl ''Only project owner can remove members''), ex_acme)
   \<and> add_member 3 1 (PkInt 3) ex_acme = (Inr (HTTP_404_NOT_FOUND, Inl ''Not found.''), ex_acme)
   \<and> add_member 1 1 (PkInt 9) ex_acme
     = (Inr (HTTP_404_NOT_FOUND, Inl ''User not found''), ex_acme)
   \<and> remove_member 1 1 PkNone ex_acme
     = (Inr (HTTP_404_NOT_FOUND, Inl ''User not found''), ex_acme)"
proof -
  have p: "ex_launch \<in> set (projects ex_acme)" and k: "project_id ex_launch = 1"
    and q: "\<forall>q \<in> set (projects ex_acme). project_id q = 1 \<longrightarrow> q = ex_launch"
    using ex_launch_in by simp_all
  have o: "owner ex_launch = 1" and m: "members ex_launch = [2]"
    by (simp_all add: ex_launch_def)
  have u9: "(9::nat) \<notin> user_id ` set (users ex_acme)"
    by (simp add: ex_acme_def ex_admin_def ex_bob_def ex_eve_def)
  from member_actions_owner_only [OF p k q, of 2 "PkInt 3"] o m
  have 1: "add_member 2 1 (PkInt 3) ex_acme
     = (Inr (HTTP_403_FORBIDDEN, Inl ''Only project owner can add members''), ex_acme)"
    by simp
  from member_actions_owner_only [OF p k q, of 2 "PkInt 2"] o m
  have 2: "remove_member 2 1 (PkInt 2) ex_acme
     = (Inr (HTTP_403_FORBIDDEN, Inl ''Only project owner can remove members''), ex_acme)"
    by simp
  from member_actions_owner_only [OF p k q, of 3 "PkInt 3"] o m
  have 3: "add_member 3 1 (PkInt 3) ex_acme
     = (Inr (HTTP_404_NOT_FOUND, Inl ''Not found.''), ex_acme)"
    by simp
  from member_actions_owner_only [OF p k q, of 1 "PkInt 9"] o u9
  have 4: "add_member 1 1 (PkInt 9) ex_acme
     = (Inr (HTTP_404_NOT_FOUND, Inl ''User not found''), ex_acme)"
    by simp
  from member_actions_owner_only [OF p k q, of 1 PkNone] o
  have 5: "remove_member 1 1 PkNone ex_acme
     = (Inr (HTTP_404_NOT_FOUND, Inl ''User not found''), ex_acme)"
    by simp
  from 1 2 3 4 5 show ?thesis by simp
qed

text \<open>
  Claim C7 as stated fails: the outsider (user 3, neither owner nor member of project 1)
  gets not-found and not forbidden from both actions, and the member who is not the owner
  (user 2) gets forbidden, not not-found, when naming user 9, who does not exist.
\<close>

theorem member_action_outsider_counterexample:
  "owner ex_launch \<noteq> 3
   \<and> add_member 3 1 (PkInt 2) ex_acme = (Inr (HTTP_404_NOT_FOUND, Inl ''Not found.''), ex_acme)
   \<and> remove_member 3 1 (PkInt 2) ex_acme = (Inr (HTTP_404_NOT_FOUND, Inl ''Not found.''), ex_acme)
   \<and> 9 \<notin> user_id ` set (users ex_acme)
   \<and> add_member 2 1 (PkInt 9) ex_acme
       = (Inr (HTTP_403_FORBIDDEN, Inl ''Only project owner can add members''), ex_acme)"
proof -
  have p: "ex_launch \<in> set (projects ex_acme)" and k: "project_id ex_launch = 1"
    and q: "\<forall>q \<in> set (projects ex_acme). project_id q = 1 \<longrightarrow> q = ex_launch"
    using ex_launch_in by simp_all
  have o: "owner ex_launch = 1" and m: "members ex_launch = [2]"
    by (simp_all add: ex_launch_def)
  have g3: "get_object 3 1 ex_acme = None"
    using get_object_unique [OF p k q, of 3] o m by (simp add: accessible_def)
  have g2: "get_object 2 1 ex_acme = Some ex_launch"
    using get_object_unique [OF p k q, of 2] o m by (simp add: accessible_def)
  have u9: "(9::nat) \<notin> user_id ` set (users ex_acme)"
    by (simp add: ex_acme_def ex_admin_def ex_bob_def ex_eve_def)
  have o2: "owner ex_launch \<noteq> 2" using o by simp
  have 1: "add_member 3 1 (PkInt 2) ex_acme
             = (Inr (HTTP_404_NOT_FOUND, Inl ''Not found.''), ex_acme)"
    by (rule add_member_no_object [OF g3])
  have 2: "remove_member 3 1 (PkInt 2) ex_acme
             = (Inr (HTTP_404_NOT_FOUND, Inl ''Not found.''), ex_acme)"
    by (rule remove_member_no_object [OF g3])
  have 3: "add_member 2 1 (PkInt 9) ex_acme
       = (Inr (HTTP_403_FORBIDDEN, Inl ''Only project owner can add members''), ex_acme)"
    by (rule add_member_not_owner [OF g2 o2])
  have 4: "owner ex_launch \<noteq> 3" using o by simp
  from 1 2 3 4 u9 show ?thesis by (intro conjI)
qed

text \<open>
  Claim C6. Creating a task is rejected with a validation error (status 400, nothing
  written) whenever the creator neither owns nor is a member of the target project; once
  the owner has added the creator as a member, the same payload (its other fields being
  valid) is accepted: the task is created in that project with the creator as
  \<^verbatim>\<open>created_by\<close>.
\<close>

theorem task_creation_requires_project_access:
  assumes "p \<in> set (projects t)" and "project_id p = payload_project d"
    and "\<forall>q \<in> set (projects t). project_id q = payload_project d \<longrightarrow> q = p"
    and "owner p \<noteq> u" and "u \<notin> set (members p)"
  shows "(\<exists>errors. TaskViewSet_create u d now t = ((HTTP_400_BAD_REQUEST, Inl errors), t)
            \<and> ValidationError ''You don't have permission to create tasks in this project.''
                \<in> set errors)
       \<and> (u \<in> user_id ` set (users t) \<and> other_field_errors d t = [] \<longrightarrow>
            (\<exists>p' t' k.
               add_member (owner p) (project_id p) (PkInt u) t = (Inr (HTTP_200_OK, Inr p'), t')
               \<and> TaskViewSet_create u d now t'
                   = ((HTTP_201_CREATED, Inr k), t'\<lparr> tasks := tasks t' @ [k] \<rparr>)
               \<and> task_project k = project_id p \<and> created_by k = u))"
proof -
  let ?pk = "payload_project d"
  have pf: "project_field u ?pk t
      = Inl (ValidationError ''You don't have permission to create tasks in this project.'')"
    using project_field_unique [OF assms(1-3), of u] assms(4,5)
    by (simp add: validate_project_def)
  have 1: "\<exists>errors. TaskViewSet_create u d now t = ((HTTP_400_BAD_REQUEST, Inl errors), t)
            \<and> ValidationError ''You don't have permission to create tasks in this project.''
                \<in> set errors"
    by (simp add: TaskViewSet_create_def pf errors_of_def Let_def)
  have 2: "\<exists>p' t' k.
               add_member (owner p) (project_id p) (PkInt u) t = (Inr (HTTP_200_OK, Inr p'), t')
               \<and> TaskViewSet_create u d now t'
                   = ((HTTP_201_CREATED, Inr k), t'\<lparr> tasks := tasks t' @ [k] \<rparr>)
               \<and> task_project k = project_id p \<and> created_by k = u"
    if ex: "u \<in> user_id ` set (users t)" and ok: "other_field_errors d t = []"
  proof -
    let ?t' = "update_project ?pk (members_add u) t"
    have g: "get_object (owner p) ?pk t = Some p"
      using get_object_unique [OF assms(1-3), of "owner p"] by (simp add: accessible_def)
    from User_objects_get_found [OF ex]
    obtain x where x: "User_objects_get (PkInt u) t = Inr x" "user_id x = u" by blast
    have am: "add_member (owner p) (project_id p) (PkInt u) t
                = (Inr (HTTP_200_OK, Inr (members_add u p)), ?t')"
      using g x assms(2) by (simp add: add_member_def)
    have pf': "project_field u ?pk ?t' = Inr (members_add u p)"
      using project_field_after_update [OF assms(1-3), of u u]
      by (simp add: validate_project_def members_add_def)
    let ?k = "\<lparr> task_id = next_pk (map task_id (tasks ?t')),
                 task_project = payload_project d, title = payload_title d,
                 priority = payload_priority d, status = payload_status d,
                 assigned_to = payload_assigned_to_id d, created_by = u,
                 due_date = payload_due_date d, completed_at = payload_completed_at d,
                 created_at = now \<rparr>"
    have e: "errors_of (project_field u ?pk ?t') @ other_field_errors d ?t' = []"
      by (simp add: pf' errors_of_def ok)
    have cr: "TaskViewSet_create u d now ?t'
                = ((HTTP_201_CREATED, Inr ?k), ?t'\<lparr> tasks := tasks ?t' @ [?k] \<rparr>)"
      unfolding TaskViewSet_create_def Let_def e by simp
    have kp: "task_project ?k = project_id p \<and> created_by ?k = u"
      using assms(2) by simp
    from am cr kp show ?thesis by blast
  qed
  from 1 2 show ?thesis by blast
qed

theorem task_creation_requires_project_access_witness:
  "(\<exists>errors. TaskViewSet_create 3 ex_payload 7 ex_acme
              = ((HTTP_400_BAD_REQUEST, Inl errors), ex_acme)
          \<and> ValidationError ''You don't have permission to create tasks in this project.''
                \<in> set errors)
   \<and> (\<exists>p' t' k.
         add_member 1 1 (PkInt 3) ex_acme = (Inr (HTTP_200_OK, Inr p'), t')
         \<and> TaskViewSet_create 3 ex_payload 7 t'
             = ((HTTP_201_CREATED, Inr k), t'\<lparr> tasks := tasks t' @ [k] \<rparr>)
         \<and> task_project k = 1 \<and> created_by k = 3)"
proof -
  have p: "ex_launch \<in> set (projects ex_acme)"
    and k: "project_id ex_launch = payload_project ex_payload"
    and q: "\<forall>q \<in> set (projects ex_acme). project_id q = payload_project ex_payload
              \<longrightarrow> q = ex_launch"
    using ex_launch_in by (simp_all add: ex_payload_def)
  have o: "owner ex_launch \<noteq> 3" and m: "3 \<notin> set (members ex_launch)"
    by (simp_all add: ex_launch_def)
  have u: "3 \<in> user_id ` set (users ex_acme)"
    by (simp add: ex_acme_def ex_admin_def ex_bob_def ex_eve_def)
  have f: "other_field_errors ex_payload ex_acme = []"
    by (simp add: other_field_errors_def ex_payload_def PRIORITY_CHOICES_def
          STATUS_CHOICES_def ex_acme_def ex_admin_def ex_bob_def ex_eve_def)
  have e: "owner ex_launch = 1" "project_id ex_launch = 1"
    by (simp_all add: ex_launch_def)
  from task_creation_requires_project_access [OF p k q o m, of 7] u f e
  show ?thesis by simp
qed

subsection \<open>Dashboard\<close>

text \<open>
  Claim C5, at the input where the code departs from it. The admin (user 1) of the example
  has three assigned tasks in the accessible project: two done and one in review. The
  breakdown \<^verbatim>\<open>my_tasks\<close> reports total 3, todo 0, in_progress 0 and done 2; it has no count
  for review, so its counts per status sum to 2 and not to the total.
\<close>

theorem dashboard_stats_omits_review:
  "my_tasks_total (dashboard_stats 1 ex_acme) = 3
   \<and> my_tasks_todo (dashboard_stats 1 ex_acme) = 0
   \<and> my_tasks_in_progress (dashboard_stats 1 ex_acme) = 0
   \<and> my_tasks_done (dashboard_stats 1 ex_acme) = 2
   \<and> count_where (\<lambda>k. status k = ''review'')
        (filter (\<lambda>k. assigned_to k = Some 1) (tasks ex_acme)) = 1"
proof -
  have 1: "my_tasks_total (dashboard_stats 1 ex_acme) = 3"
    by (simp add: dashboard_stats_def Let_def accessible_def ex_acme_def ex_launch_def
          ex_tasks_def ex_task_def count_where_def)
  have 2: "my_tasks_todo (dashboard_stats 1 ex_acme) = 0"
    by (simp add: dashboard_stats_def Let_def accessible_def ex_acme_def ex_launch_def
          ex_tasks_def ex_task_def count_where_def)
  have 3: "my_tasks_in_progress (dashboard_stats 1 ex_acme) = 0"
    by (simp add: dashboard_stats_def Let_def accessible_def ex_acme_def ex_launch_def
          ex_tasks_def ex_task_def count_where_def)
  have 4: "my_tasks_done (dashboard_stats 1 ex_acme) = 2"
    by (simp add: dashboard_stats_def Let_def accessible_def ex_acme_def ex_launch_def
          ex_tasks_def ex_task_def count_where_def)
  have 5: "count_where (\<lambda>k. status k = ''review'')
        (filter (\<lambda>k. assigned_to k = Some 1) (tasks ex_acme)) = 1"
    by (simp add: count_where_def ex_acme_def ex_tasks_def ex_task_def)
  from 1 2 3 4 5 show ?thesis by (intro conjI)
qed

subsection \<open>User registration inside a tenant\<close>


lemma store_tenant_twice [simp]: "store_tenant t2 (store_tenant t1 w) = store_tenant t2 w"
  by (simp add: store_tenant_def)






lemma validate_role_Inr:
  "validate_role r = Inr v \<longleftrightarrow>
     (r = None \<and> v = ''member'') \<or> (r = Some v \<and> v \<in> set ROLE_CHOICES)"
  by (cases r) (auto simp: validate_role_def)













subsection \<open>Company registration\<close>

text \<open>
  The steps of \<^verbatim>\<open>create\<close> one by one, then the view: a request is answered 400 by the
  validators, or \<^verbatim>\<open>create\<close> raises, or it returns and the answer is 201.
\<close>

lemma atomic_failure: "atomic body w = (Inl e, w') \<Longrightarrow> db w' = db w"
  by (cases "body w") (auto simp: atomic_def split: sum.splits)

lemma atomic_success: "atomic body w = (Inr r, w') \<Longrightarrow> body w = (Inr r, w')"
  by (cases "body w") (auto simp: atomic_def split: sum.splits)

lemma create_failure_rolls_back:
  "CompanyRegistrationSerializer_create vd w = (Inl e, w') \<Longrightarrow> db w' = db w"
  unfolding CompanyRegistrationSerializer_create_def by (rule atomic_failure)

lemma create_schema_facts:
  "companies (create_schema s d) = companies d"
  "domains (create_schema s d) = domains d"
  "\<exists>y. map_of (schemas (create_schema s d)) s = Some y"
  by (auto simp: create_schema_def map_add_def split: option.splits)

lemma Company_objects_create_Inr:
  assumes "Company_objects_create nm s plan d = Inr (c, d1)"
  shows "companies d1 = companies d @ [c]" and "domains d1 = domains d"
    and "\<exists>y. map_of (schemas d1) s = Some y"
    and "schema_name c = s" and "name c = nm"
    and "\<forall>c' \<in> set (companies d). schema_name c' \<noteq> s"
  using assms
  by (auto simp: Company_objects_create_def Let_def create_schema_facts split: if_splits)

lemma Company_objects_create_duplicate:
  assumes "\<exists>c \<in> set (companies d). schema_name c = s"
  shows "Company_objects_create nm s plan d = Inl (IntegrityError ''duplicate key: schema_name'')"
  using assms by (simp add: Company_objects_create_def)

lemma Domain_objects_create_Inr:
  assumes "Domain_objects_create host cid prim d = Inr (x, d2)"
  shows "domains d2 = domains d @ [x]" and "companies d2 = companies d"
    and "schemas d2 = schemas d"
    and "domain x = host" and "tenant x = cid" and "is_primary x = prim"
    and "\<forall>x' \<in> set (domains d). domain x' \<noteq> host"
  using assms
  by (auto simp: Domain_objects_create_def Let_def split: if_splits)

lemma Domain_objects_create_duplicate:
  assumes "\<exists>x \<in> set (domains d). domain x = host"
  shows "Domain_objects_create host cid prim d = Inl (IntegrityError ''duplicate key: domain'')"
  using assms by (simp add: Domain_objects_create_def)

lemma create_user_Inr:
  assumes "create_user uname mail pw staff super w = (Inr x, w')"
  shows "\<exists>t t'. current_tenant w = Some t \<and> current_tenant w' = Some t'
           \<and> users t' = users t @ [x]
           \<and> companies (db w') = companies (db w) \<and> domains (db w') = domains (db w)
           \<and> connection_schema_name w' = connection_schema_name w
           \<and> username x = uname \<and> is_superuser x = super"
proof (cases "current_tenant w")
  case None
  with assms show ?thesis by (simp add: create_user_def)
next
  case (Some t)
  show ?thesis
  proof (cases "\<exists>u \<in> set (users t). username u = uname")
    case True
    with assms Some show ?thesis by (simp add: create_user_def)
  next
    case False
    let ?x = "\<lparr> user_id = next_pk (map user_id (users t)), username = uname, email = mail,
                password = pw, is_staff = staff, is_superuser = super \<rparr>"
    let ?t' = "t\<lparr> users := users t @ [?x] \<rparr>"
    have r: "create_user uname mail pw staff super w = (Inr ?x, store_tenant ?t' w)"
      using Some False by (simp add: create_user_def Let_def)
    have u: "users ?t' = users t @ [?x]"
      by simp
    have c: "current_tenant (store_tenant ?t' w) = Some ?t'"
      by (simp add: current_tenant_def store_tenant_def update_conv')
    have f: "companies (db (store_tenant ?t' w)) = companies (db w)"
      "domains (db (store_tenant ?t' w)) = domains (db w)"
      "connection_schema_name (store_tenant ?t' w) = connection_schema_name w"
      by (simp_all add: store_tenant_def)
    have "x = ?x" using assms unfolding r by auto
    moreover have "w' = store_tenant ?t' w" using assms unfolding r by auto
    ultimately show ?thesis using Some u c f by simp
  qed
qed

lemma create_success:
  assumes "CompanyRegistrationSerializer_create vd w = (Inr res, w')"
  shows "companies (db w') = companies (db w) @ [res_company res]
       \<and> domains (db w') = domains (db w) @ [res_domain res]
       \<and> schema_name (res_company res) = reg_schema_name vd
       \<and> name (res_company res) = company_name vd
       \<and> domain (res_domain res) = domain_url vd
       \<and> tenant (res_domain res) = company_id (res_company res)
       \<and> is_primary (res_domain res)
       \<and> (\<exists>t. map_of (schemas (db w')) (reg_schema_name vd) = Some t
              \<and> res_admin_user res \<in> set (users t))
       \<and> username (res_admin_user res) = admin_username vd
       \<and> connection_schema_name w' = reg_schema_name vd
       \<and> (\<forall>c \<in> set (companies (db w)). schema_name c \<noteq> reg_schema_name vd)
       \<and> (\<forall>x \<in> set (domains (db w)). domain x \<noteq> domain_url vd)"
proof -
  let ?co = "Company_objects_create (company_name vd) (reg_schema_name vd)
               (reg_subscription_plan vd) (db w)"
  from assms have b: "(case ?co of
         Inl e \<Rightarrow> (Inl e, w)
       | Inr (c, d1) \<Rightarrow>
           (case Domain_objects_create (domain_url vd) (company_id c) True d1 of
              Inl e \<Rightarrow> (Inl e, w\<lparr> db := d1 \<rparr>)
            | Inr (x, d2) \<Rightarrow>
                (case create_user (admin_username vd) (admin_email vd) (admin_password vd)
                        True True (set_tenant c (w\<lparr> db := d2 \<rparr>)) of
                   (Inl e, w3) \<Rightarrow> (Inl e, w3)
                 | (Inr u, w3) \<Rightarrow>
                     (Inr \<lparr> res_company = c, res_domain = x, res_admin_user = u \<rparr>, w3))))
       = (Inr res, w')"
    unfolding CompanyRegistrationSerializer_create_def by (rule atomic_success)
  obtain c d1 where co: "?co = Inr (c, d1)"
    using b by (cases ?co) auto
  let ?do = "Domain_objects_create (domain_url vd) (company_id c) True d1"
  obtain x d2 where dc: "?do = Inr (x, d2)"
    using b co by (cases ?do) auto
  let ?w2 = "set_tenant c (w\<lparr> db := d2 \<rparr>)"
  let ?cu = "create_user (admin_username vd) (admin_email vd) (admin_password vd)
               True True ?w2"
  obtain u where cu: "?cu = (Inr u, w')"
    and res: "res = \<lparr> res_company = c, res_domain = x, res_admin_user = u \<rparr>"
    using b co dc by (cases ?cu; cases "fst ?cu") auto
  note cf = Company_objects_create_Inr [OF co]
  note df = Domain_objects_create_Inr [OF dc]
  from create_user_Inr [OF cu]
  obtain t t' where uf: "current_tenant ?w2 = Some t" "current_tenant w' = Some t'"
    "users t' = users t @ [u]" "companies (db w') = companies (db ?w2)"
    "domains (db w') = domains (db ?w2)"
    "connection_schema_name w' = connection_schema_name ?w2" "username u = admin_username vd"
    by blast
  have conn: "connection_schema_name w' = reg_schema_name vd"
    using uf(6) cf(4) by (simp add: set_tenant_def)
  have sch: "map_of (schemas (db w')) (reg_schema_name vd) = Some t'"
    using uf(2) conn by (simp add: current_tenant_def)
  have "u \<in> set (users t')" using uf(3) by simp
  with sch have adm: "\<exists>t. map_of (schemas (db w')) (reg_schema_name vd) = Some t
              \<and> res_admin_user res \<in> set (users t)"
    by (simp add: res)
  have co': "companies (db w') = companies (db w) @ [res_company res]"
    using uf(4) df(2) cf(1) by (simp add: set_tenant_def res)
  have do': "domains (db w') = domains (db w) @ [res_domain res]"
    using uf(5) df(1) cf(2) by (simp add: set_tenant_def res)
  from co' do' cf(4,5,6) df(4,5,6,7) cf(2) adm uf(7) conn show ?thesis
    by (simp add: res)
qed

lemma validate_schema_name_Inr:
  "validate_schema_name d v = Inr s \<longleftrightarrow>
     s = lower v \<and> isalnum (replace_underscore v)
     \<and> (\<forall>c \<in> set (companies d). schema_name c \<noteq> v)"
  by (auto simp: validate_schema_name_def)

lemma validate_domain_url_Inr:
  "validate_domain_url d v = Inr h \<longleftrightarrow>
     h = lower v \<and> (\<forall>x \<in> set (domains d). domain x \<noteq> v)"
  by (auto simp: validate_domain_url_def)

lemma is_valid_Inr:
  "is_valid d r = Inr vd \<longleftrightarrow>
     vd = r\<lparr> reg_schema_name := lower (reg_schema_name r),
              domain_url := lower (domain_url r) \<rparr>
     \<and> isalnum (replace_underscore (reg_schema_name r))
     \<and> (\<forall>c \<in> set (companies d). schema_name c \<noteq> reg_schema_name r)
     \<and> (\<forall>x \<in> set (domains d). domain x \<noteq> domain_url r)"
proof (cases "validate_schema_name d (reg_schema_name r)")
  case (Inl e)
  then have "\<not> (isalnum (replace_underscore (reg_schema_name r))
     \<and> (\<forall>c \<in> set (companies d). schema_name c \<noteq> reg_schema_name r))"
    using validate_schema_name_Inr [of d "reg_schema_name r" "lower (reg_schema_name r)"]
    by auto
  with Inl show ?thesis
    by (cases "validate_domain_url d (domain_url r)") (auto simp: is_valid_def)
next
  case s: (Inr s)
  show ?thesis
  proof (cases "validate_domain_url d (domain_url r)")
    case (Inl e)
    then have "\<not> (\<forall>x \<in> set (domains d). domain x \<noteq> domain_url r)"
      using validate_domain_url_Inr [of d "domain_url r" "lower (domain_url r)"] by auto
    with Inl s show ?thesis by (auto simp: is_valid_def)
  next
    case h: (Inr h)
    from s h show ?thesis
      using validate_schema_name_Inr [of d "reg_schema_name r" s]
        validate_domain_url_Inr [of d "domain_url r" h]
      by (auto simp: is_valid_def)
  qed
qed

lemma is_valid_Inl:
  "is_valid d r = Inl errors \<Longrightarrow> errors \<noteq> []"
  by (auto simp: is_valid_def split: sum.splits)

lemma register_company_invalid:
  assumes "is_valid (db w) r = Inl errors"
  shows "register_company r w = (Inr (HTTP_400_BAD_REQUEST, Inl errors), w)"
  using assms by (simp add: register_company_def)

lemma register_company_valid:
  assumes "is_valid (db w) r = Inr vd"
  shows "register_company r w =
     (case CompanyRegistrationSerializer_create vd w of
        (Inl e, w') \<Rightarrow> (Inl e, w')
      | (Inr result, w') \<Rightarrow> (Inr (HTTP_201_CREATED, Inr result), w'))"
  using assms by (simp add: register_company_def)

lemma register_company_cases:
  assumes "register_company r w = (out, w')"
  shows "(\<exists>errors. is_valid (db w) r = Inl errors
            \<and> out = Inr (HTTP_400_BAD_REQUEST, Inl errors) \<and> w' = w)
       \<or> (\<exists>vd e. is_valid (db w) r = Inr vd
            \<and> CompanyRegistrationSerializer_create vd w = (Inl e, w') \<and> out = Inl e)
       \<or> (\<exists>vd res. is_valid (db w) r = Inr vd
            \<and> CompanyRegistrationSerializer_create vd w = (Inr res, w')
            \<and> out = Inr (HTTP_201_CREATED, Inr res))"
proof (cases "is_valid (db w) r")
  case (Inl errors)
  with assms register_company_invalid [OF Inl] show ?thesis by simp
next
  case (Inr vd)
  obtain a w1 where c: "CompanyRegistrationSerializer_create vd w = (a, w1)"
    by (cases "CompanyRegistrationSerializer_create vd w")
  with assms register_company_valid [OF Inr] Inr show ?thesis
    by (cases a) auto
qed

lemma register_company_created:
  assumes "register_company r w = (Inr (st, Inr res), w')"
  shows "st = HTTP_201_CREATED
       \<and> schema_name (res_company res) = lower (reg_schema_name r)
       \<and> domain (res_domain res) = lower (domain_url r)
       \<and> connection_schema_name w' = lower (reg_schema_name r)
       \<and> (\<forall>c \<in> set (companies (db w)). schema_name c \<noteq> lower (reg_schema_name r))
       \<and> (\<forall>x \<in> set (domains (db w)). domain x \<noteq> lower (domain_url r))"
proof -
  from register_company_cases [OF assms]
  obtain vd where v: "is_valid (db w) r = Inr vd"
    and c: "CompanyRegistrationSerializer_create vd w = (Inr res, w')"
    and s: "st = HTTP_201_CREATED"
    by auto
  from v have vd: "reg_schema_name vd = lower (reg_schema_name r)"
    "domain_url vd = lower (domain_url r)"
    by (simp_all add: is_valid_Inr)
  from create_success [OF c] s show ?thesis by (simp add: vd)
qed

lemma create_schema_lookup:
  "map_of (schemas (create_schema s d)) s
     = Some (case map_of (schemas d) s of None \<Rightarrow> empty_tenant | Some t \<Rightarrow> t)"
  by (auto simp: create_schema_def map_add_def split: option.splits)

lemma create_user_fresh:
  assumes "current_tenant w = Some t" and "\<forall>u \<in> set (users t). username u \<noteq> uname"
  shows "\<exists>x w'. create_user uname mail pw staff super w = (Inr x, w')"
  using assms by (simp add: create_user_def Let_def)

lemma create_succeeds:
  assumes c: "\<forall>c \<in> set (companies (db w)). schema_name c \<noteq> reg_schema_name vd"
    and d: "\<forall>x \<in> set (domains (db w)). domain x \<noteq> domain_url vd"
    and u: "\<forall>t. map_of (schemas (db w)) (reg_schema_name vd) = Some t \<longrightarrow>
              (\<forall>u \<in> set (users t). username u \<noteq> admin_username vd)"
  shows "\<exists>res w'. CompanyRegistrationSerializer_create vd w = (Inr res, w')"
proof -
  let ?s = "reg_schema_name vd"
  let ?c = "\<lparr> company_id = next_pk (map company_id (companies (db w))),
               name = company_name vd, schema_name = ?s,
               subscription_plan = reg_subscription_plan vd, is_active = True \<rparr>"
  let ?d1 = "create_schema ?s ((db w)\<lparr> companies := companies (db w) @ [?c] \<rparr>)"
  have co: "Company_objects_create (company_name vd) ?s (reg_subscription_plan vd) (db w)
              = Inr (?c, ?d1)"
    using c by (simp add: Company_objects_create_def Let_def)
  let ?x = "\<lparr> domain_id = next_pk (map domain_id (domains ?d1)), domain = domain_url vd,
               tenant = company_id ?c, is_primary = True \<rparr>"
  let ?d2 = "?d1\<lparr> domains := domains ?d1 @ [?x] \<rparr>"
  have dc: "Domain_objects_create (domain_url vd) (company_id ?c) True ?d1 = Inr (?x, ?d2)"
    using d by (simp add: Domain_objects_create_def Let_def create_schema_facts)
  let ?w2 = "set_tenant ?c (w\<lparr> db := ?d2 \<rparr>)"
  let ?t = "case map_of (schemas (db w)) ?s of None \<Rightarrow> empty_tenant | Some t \<Rightarrow> t"
  have ct: "current_tenant ?w2 = Some ?t"
    using create_schema_lookup [of ?s "(db w)\<lparr> companies := companies (db w) @ [?c] \<rparr>"]
    by (simp add: current_tenant_def set_tenant_def)
  have nu: "\<forall>u \<in> set (users ?t). username u \<noteq> admin_username vd"
    using u by (cases "map_of (schemas (db w)) ?s") (simp_all add: empty_tenant_def)
  from create_user_fresh [OF ct nu]
  obtain a w3 where cu: "create_user (admin_username vd) (admin_email vd) (admin_password vd)
                           True True ?w2 = (Inr a, w3)"
    by blast
  have "CompanyRegistrationSerializer_create vd w
          = (Inr \<lparr> res_company = ?c, res_domain = ?x, res_admin_user = a \<rparr>, w3)"
    unfolding CompanyRegistrationSerializer_create_def atomic_def
    by (simp only: co dc cu sum.case prod.case)
  then show ?thesis by blast
qed

lemma register_company_succeeds:
  assumes "isalnum (replace_underscore (reg_schema_name r))"
    and "\<forall>c \<in> set (companies (db w)).
           schema_name c \<noteq> reg_schema_name r \<and> schema_name c \<noteq> lower (reg_schema_name r)"
    and "\<forall>x \<in> set (domains (db w)).
           domain x \<noteq> domain_url r \<and> domain x \<noteq> lower (domain_url r)"
    and "\<forall>t. map_of (schemas (db w)) (lower (reg_schema_name r)) = Some t \<longrightarrow>
              (\<forall>u \<in> set (users t). username u \<noteq> admin_username r)"
  shows "\<exists>res w'. register_company r w = (Inr (HTTP_201_CREATED, Inr res), w')"
proof -
  let ?vd = "r\<lparr> reg_schema_name := lower (reg_schema_name r),
                domain_url := lower (domain_url r) \<rparr>"
  have v: "is_valid (db w) r = Inr ?vd"
    using assms(1-3) by (simp add: is_valid_Inr)
  have "\<exists>res w'. CompanyRegistrationSerializer_create ?vd w = (Inr res, w')"
    by (rule create_succeeds) (use assms(2-4) in simp_all)
  then obtain res w' where "CompanyRegistrationSerializer_create ?vd w = (Inr res, w')"
    by blast
  with register_company_valid [OF v] show ?thesis by simp
qed

lemma lower_examples:
  "lower ''Beta'' = ''beta''" "lower ''beta.Example.com'' = ''beta.example.com''"
  "lower ''ACME'' = ''acme''" "lower ''legacy'' = ''legacy''"
  "lower ''legacy.example.com'' = ''legacy.example.com''"
  "lower ''be-ta'' = ''be-ta''" "lower ''ACME.example.com'' = ''acme.example.com''"
  "lower ''acme'' = ''acme''"
  by code_simp+

lemma create_fails_on_username:
  assumes c: "\<forall>c \<in> set (companies (db w)). schema_name c \<noteq> reg_schema_name vd"
    and d: "\<forall>x \<in> set (domains (db w)). domain x \<noteq> domain_url vd"
    and t: "map_of (schemas (db w)) (reg_schema_name vd) = Some t"
    and u: "\<exists>u \<in> set (users t). username u = admin_username vd"
  shows "\<exists>w'. CompanyRegistrationSerializer_create vd w
                 = (Inl (IntegrityError ''duplicate key: username''), w')
               \<and> connection_schema_name w' = reg_schema_name vd"
proof -
  let ?s = "reg_schema_name vd"
  let ?c = "\<lparr> company_id = next_pk (map company_id (companies (db w))),
               name = company_name vd, schema_name = ?s,
               subscription_plan = reg_subscription_plan vd, is_active = True \<rparr>"
  let ?d1 = "create_schema ?s ((db w)\<lparr> companies := companies (db w) @ [?c] \<rparr>)"
  have co: "Company_objects_create (company_name vd) ?s (reg_subscription_plan vd) (db w)
              = Inr (?c, ?d1)"
    using c by (simp add: Company_objects_create_def Let_def)
  let ?x = "\<lparr> domain_id = next_pk (map domain_id (domains ?d1)), domain = domain_url vd,
               tenant = company_id ?c, is_primary = True \<rparr>"
  let ?d2 = "?d1\<lparr> domains := domains ?d1 @ [?x] \<rparr>"
  have dc: "Domain_objects_create (domain_url vd) (company_id ?c) True ?d1 = Inr (?x, ?d2)"
    using d by (simp add: Domain_objects_create_def Let_def create_schema_facts)
  let ?w2 = "set_tenant ?c (w\<lparr> db := ?d2 \<rparr>)"
  have ct: "current_tenant ?w2 = Some t"
    using create_schema_lookup [of ?s "(db w)\<lparr> companies := companies (db w) @ [?c] \<rparr>"] t
    by (simp add: current_tenant_def set_tenant_def)
  have cu: "create_user (admin_username vd) (admin_email vd) (admin_password vd)
              True True ?w2 = (Inl (IntegrityError ''duplicate key: username''), ?w2)"
    using ct u by (simp add: create_user_def)
  have "CompanyRegistrationSerializer_create vd w
          = (Inl (IntegrityError ''duplicate key: username''), ?w2\<lparr> db := db w \<rparr>)"
    unfolding CompanyRegistrationSerializer_create_def atomic_def
    by (simp only: co dc cu sum.case prod.case)
  moreover have "connection_schema_name (?w2\<lparr> db := db w \<rparr>) = ?s"
    by (simp add: set_tenant_def)
  ultimately show ?thesis by blast
qed

lemma ex_domains: "domains (db ex_world) =
    [\<lparr> domain_id = 1, domain = ''acme.example.com'', tenant = 2, is_primary = True \<rparr>]"
  by (simp add: ex_world_def ex_db_def)

lemma ex_registration_fields:
  "reg_schema_name ex_registration = ''Beta''" "domain_url ex_registration = ''beta.Example.com''"
  "admin_username ex_registration = ''admin''"
  by (simp_all add: ex_registration_def)

lemma ex_registration_succeeds:
  "\<exists>res w'. register_company ex_registration ex_world = (Inr (HTTP_201_CREATED, Inr res), w')"
proof (rule register_company_succeeds)
  show "isalnum (replace_underscore (reg_schema_name ex_registration))"
    by (simp add: ex_registration_fields isalnum_def replace_underscore_def isalnum_char_def)
  show "\<forall>c \<in> set (companies (db ex_world)).
           schema_name c \<noteq> reg_schema_name ex_registration
           \<and> schema_name c \<noteq> lower (reg_schema_name ex_registration)"
    by (simp add: ex_registration_fields lower_examples ex_companies)
  show "\<forall>x \<in> set (domains (db ex_world)).
           domain x \<noteq> domain_url ex_registration
           \<and> domain x \<noteq> lower (domain_url ex_registration)"
    by (simp add: ex_registration_fields lower_examples ex_domains)
  show "\<forall>t. map_of (schemas (db ex_world)) (lower (reg_schema_name ex_registration)) = Some t
          \<longrightarrow> (\<forall>u \<in> set (users t). username u \<noteq> admin_username ex_registration)"
    by (simp add: ex_registration_fields lower_examples ex_schemas)
qed

lemma ex_legacy_registration_fails:
  "\<exists>w'. register_company
          (ex_registration\<lparr> reg_schema_name := ''legacy'', domain_url := ''legacy.example.com'' \<rparr>)
          ex_world
        = (Inl (IntegrityError ''duplicate key: username''), w')
      \<and> connection_schema_name w' = ''legacy''"
proof -
  let ?r = "ex_registration\<lparr> reg_schema_name := ''legacy'',
              domain_url := ''legacy.example.com'' \<rparr>"
  have v: "is_valid (db ex_world) ?r = Inr ?r"
    by (simp add: is_valid_Inr lower_examples ex_companies ex_domains isalnum_def
          replace_underscore_def isalnum_char_def)
  have "\<exists>w'. CompanyRegistrationSerializer_create ?r ex_world
                 = (Inl (IntegrityError ''duplicate key: username''), w')
               \<and> connection_schema_name w' = reg_schema_name ?r"
  proof (rule create_fails_on_username)
    show "\<forall>c \<in> set (companies (db ex_world)). schema_name c \<noteq> reg_schema_name ?r"
      by (simp add: ex_companies)
    show "\<forall>x \<in> set (domains (db ex_world)). domain x \<noteq> domain_url ?r"
      by (simp add: ex_domains)
    show "map_of (schemas (db ex_world)) (reg_schema_name ?r) = Some ex_legacy"
      by (simp add: ex_schemas)
    show "\<exists>u \<in> set (users ex_legacy). username u = admin_username ?r"
      by (simp add: ex_legacy_def ex_admin_def ex_registration_def)
  qed
  then obtain w' where "CompanyRegistrationSerializer_create ?r ex_world
                 = (Inl (IntegrityError ''duplicate key: username''), w')"
    "connection_schema_name w' = ''legacy''"
    by auto
  with register_company_valid [OF v] show ?thesis by simp
qed

lemma schema_context_restores:
  "connection_schema_name (snd (schema_context s body w)) = connection_schema_name w"
  by (simp add: schema_context_def split_beta)

lemma send_task_reminder_email_restores:
  "connection_schema_name (snd (send_task_reminder_email tid s smtp_ok w))
     = connection_schema_name w"
proof -
  obtain r w' where c: "schema_context s (reminder_body tid smtp_ok) w = (r, w')"
    by (cases "schema_context s (reminder_body tid smtp_ok) w")
  from schema_context_restores [of s "reminder_body tid smtp_ok" w] c
  have "connection_schema_name w' = connection_schema_name w" by simp
  with c show ?thesis
    by (cases r) (simp_all add: send_task_reminder_email_def)
qed

lemma cleanup_old_data_restores:
  "connection_schema_name (snd (cleanup_old_data now days w)) = connection_schema_name w"
  by (simp add: cleanup_old_data_def cleanup_tenants_frame)

lemma register_company_failure:
  assumes "register_company r w = (Inl e, w')"
  shows "db w' = db w"
  using register_company_cases [OF assms] create_failure_rolls_back by auto



text \<open>
  What the validation and the unique columns together achieve. A schema identifier with a
  character that is neither alphanumeric nor an underscore (a hyphen, for one) is answered
  400 and nothing changes; a registration that succeeds stores the schema identifier and
  the domain in lowercase; a registration whose lowercased schema identifier or domain is
  already stored never succeeds and leaves the store as it was.
\<close>

lemma registration_validation:
  "(\<not> (\<forall>c \<in> set (reg_schema_name r). isalnum_char c \<or> c = CHR ''_'') \<longrightarrow>
      (\<exists>m. validate_schema_name (db w) (reg_schema_name r) = Inl (ValidationError m))
    \<and> (\<exists>errors. register_company r w = (Inr (HTTP_400_BAD_REQUEST, Inl errors), w)
          \<and> errors \<noteq> []))
   \<and> (\<forall>st res w'. register_company r w = (Inr (st, Inr res), w') \<longrightarrow>
         schema_name (res_company res) = lower (reg_schema_name r)
       \<and> domain (res_domain res) = lower (domain_url r))
   \<and> ((\<exists>c \<in> set (companies (db w)). schema_name c = lower (reg_schema_name r))
       \<or> (\<exists>x \<in> set (domains (db w)). domain x = lower (domain_url r)) \<longrightarrow>
         (\<forall>st res. fst (register_company r w) \<noteq> Inr (st, Inr res))
       \<and> db (snd (register_company r w)) = db w)"
proof -
  have a: "(\<exists>m. validate_schema_name (db w) (reg_schema_name r) = Inl (ValidationError m))
    \<and> (\<exists>errors. register_company r w = (Inr (HTTP_400_BAD_REQUEST, Inl errors), w)
          \<and> errors \<noteq> [])"
    if bad: "\<not> (\<forall>c \<in> set (reg_schema_name r). isalnum_char c \<or> c = CHR ''_'')"
  proof -
    from bad have "\<not> list_all isalnum_char (replace_underscore (reg_schema_name r))"
      by (auto simp: list_all_iff replace_underscore_def)
    then have na: "\<not> isalnum (replace_underscore (reg_schema_name r))"
      by (simp add: isalnum_def)
    then have 1: "\<exists>m. validate_schema_name (db w) (reg_schema_name r) = Inl (ValidationError m)"
      by (simp add: validate_schema_name_def)
    from na have "\<forall>vd. is_valid (db w) r \<noteq> Inr vd" by (simp add: is_valid_Inr)
    then obtain errors where e: "is_valid (db w) r = Inl errors"
      by (cases "is_valid (db w) r") auto
    from register_company_invalid [OF e] is_valid_Inl [OF e] 1 show ?thesis by blast
  qed
  have b: "schema_name (res_company res) = lower (reg_schema_name r)
       \<and> domain (res_domain res) = lower (domain_url r)"
    if "register_company r w = (Inr (st, Inr res), w')" for st res w'
    using register_company_created [OF that] by simp
  have c: "(\<forall>st res. fst (register_company r w) \<noteq> Inr (st, Inr res))
       \<and> db (snd (register_company r w)) = db w"
    if dup: "(\<exists>c \<in> set (companies (db w)). schema_name c = lower (reg_schema_name r))
       \<or> (\<exists>x \<in> set (domains (db w)). domain x = lower (domain_url r))"
  proof -
    obtain out w' where rc: "register_company r w = (out, w')"
      by (cases "register_company r w")
    have no: "out \<noteq> Inr (st, Inr res)" for st res
    proof
      assume "out = Inr (st, Inr res)"
      with rc have "register_company r w = (Inr (st, Inr res), w')" by simp
      from register_company_created [OF this] dup show False by blast
    qed
    from register_company_cases [OF rc] no have "db w' = db w"
      using create_failure_rolls_back by auto
    with no rc show ?thesis by simp
  qed
  from a b c show ?thesis by blast
qed

lemma registration_validation_examples:
  "(\<exists>errors. register_company (ex_registration\<lparr> reg_schema_name := ''be-ta'' \<rparr>) ex_world
              = (Inr (HTTP_400_BAD_REQUEST, Inl errors), ex_world)
          \<and> errors \<noteq> [])
   \<and> (\<exists>res w'. register_company ex_registration ex_world
                  = (Inr (HTTP_201_CREATED, Inr res), w')
          \<and> schema_name (res_company res) = ''beta''
          \<and> domain (res_domain res) = ''beta.example.com'')
   \<and> (\<forall>st res. fst (register_company (ex_registration\<lparr> reg_schema_name := ''ACME'' \<rparr>)
                        ex_world) \<noteq> Inr (st, Inr res))
   \<and> db (snd (register_company (ex_registration\<lparr> reg_schema_name := ''ACME'' \<rparr>) ex_world))
       = db ex_world"
proof -
  let ?hyphen = "ex_registration\<lparr> reg_schema_name := ''be-ta'' \<rparr>"
  let ?upper = "ex_registration\<lparr> reg_schema_name := ''ACME'' \<rparr>"
  have h: "\<not> (\<forall>c \<in> set (reg_schema_name ?hyphen). isalnum_char c \<or> c = CHR ''_'')"
    by (simp add: isalnum_char_def)
  from registration_validation [of ?hyphen ex_world] h
  have 1: "\<exists>errors. register_company ?hyphen ex_world
              = (Inr (HTTP_400_BAD_REQUEST, Inl errors), ex_world)
          \<and> errors \<noteq> []"
    by blast
  from ex_registration_succeeds obtain res w'
    where s: "register_company ex_registration ex_world = (Inr (HTTP_201_CREATED, Inr res), w')"
    by blast
  from registration_validation [of ex_registration ex_world] s
  have "schema_name (res_company res) = lower (reg_schema_name ex_registration)
       \<and> domain (res_domain res) = lower (domain_url ex_registration)"
    by blast
  then have "schema_name (res_company res) = ''beta''
       \<and> domain (res_domain res) = ''beta.example.com''"
    by (simp add: ex_registration_fields lower_examples)
  with s have 2: "\<exists>res w'. register_company ex_registration ex_world
                  = (Inr (HTTP_201_CREATED, Inr res), w')
          \<and> schema_name (res_company res) = ''beta''
          \<and> domain (res_domain res) = ''beta.example.com''"
    by blast
  have d: "\<exists>c \<in> set (companies (db ex_world)). schema_name c = lower (reg_schema_name ?upper)"
    by (simp add: lower_examples ex_companies)
  from registration_validation [of ?upper ex_world] d
  have 3: "(\<forall>st res. fst (register_company ?upper ex_world) \<noteq> Inr (st, Inr res))
       \<and> db (snd (register_company ?upper ex_world)) = db ex_world"
    by blast
  from 1 2 3 show ?thesis by blast
qed

lemma create_fails_on_schema_name:
  assumes "\<exists>c \<in> set (companies (db w)). schema_name c = reg_schema_name vd"
  shows "CompanyRegistrationSerializer_create vd w
           = (Inl (IntegrityError ''duplicate key: schema_name''), w)"
proof -
  have "Company_objects_create (company_name vd) (reg_schema_name vd)
          (reg_subscription_plan vd) (db w)
        = Inl (IntegrityError ''duplicate key: schema_name'')"
    by (rule Company_objects_create_duplicate [OF assms])
  then show ?thesis
    by (simp add: CompanyRegistrationSerializer_create_def atomic_def)
qed

lemma create_fails_on_domain:
  assumes c: "\<forall>c \<in> set (companies (db w)). schema_name c \<noteq> reg_schema_name vd"
    and d: "\<exists>x \<in> set (domains (db w)). domain x = domain_url vd"
  shows "CompanyRegistrationSerializer_create vd w
           = (Inl (IntegrityError ''duplicate key: domain''), w)"
proof -
  let ?c = "\<lparr> company_id = next_pk (map company_id (companies (db w))),
               name = company_name vd, schema_name = reg_schema_name vd,
               subscription_plan = reg_subscription_plan vd, is_active = True \<rparr>"
  let ?d1 = "create_schema (reg_schema_name vd)
               ((db w)\<lparr> companies := companies (db w) @ [?c] \<rparr>)"
  have co: "Company_objects_create (company_name vd) (reg_schema_name vd)
              (reg_subscription_plan vd) (db w) = Inr (?c, ?d1)"
    using c by (simp add: Company_objects_create_def Let_def)
  have "\<exists>x \<in> set (domains ?d1). domain x = domain_url vd"
    using d by (simp add: create_schema_facts)
  from Domain_objects_create_duplicate [OF this]
  have dc: "Domain_objects_create (domain_url vd) (company_id ?c) True ?d1
              = Inl (IntegrityError ''duplicate key: domain'')" .
  show ?thesis
    unfolding CompanyRegistrationSerializer_create_def atomic_def
    by (simp only: co dc sum.case prod.case) simp
qed

text \<open>
  Claim C3, at the input where the code departs from it. The company \<^verbatim>\<open>acme\<close> with the
  domain \<^verbatim>\<open>acme.example.com\<close> is registered. A request for the schema \<^verbatim>\<open>ACME\<close> passes
  \<^verbatim>\<open>validate_schema_name\<close>, which compares the value as given with the stored names and
  lowercases it afterwards; the insert of the company then repeats the unique schema name
  and raises IntegrityError, which leaves the view: the request is not answered with a
  validation error. The same holds of the domain \<^verbatim>\<open>ACME.example.com\<close>. The store is
  unchanged in both cases. The request for \<^verbatim>\<open>acme\<close>, in the stored case, is answered 400 by
  the validator.
\<close>

theorem duplicate_in_other_case_passes_validation:
  "validate_schema_name (db ex_world) ''ACME'' = Inr ''acme''
   \<and> validate_domain_url (db ex_world) ''ACME.example.com'' = Inr ''acme.example.com''
   \<and> register_company (ex_registration\<lparr> reg_schema_name := ''ACME'' \<rparr>) ex_world
       = (Inl (IntegrityError ''duplicate key: schema_name''), ex_world)
   \<and> register_company (ex_registration\<lparr> domain_url := ''ACME.example.com'' \<rparr>) ex_world
       = (Inl (IntegrityError ''duplicate key: domain''), ex_world)
   \<and> register_company (ex_registration\<lparr> reg_schema_name := ''acme'' \<rparr>) ex_world
       = (Inr (HTTP_400_BAD_REQUEST,
               Inl [ValidationError ''This schema name is already taken.'']), ex_world)"
proof -
  let ?r1 = "ex_registration\<lparr> reg_schema_name := ''ACME'' \<rparr>"
  let ?r2 = "ex_registration\<lparr> domain_url := ''ACME.example.com'' \<rparr>"
  let ?r3 = "ex_registration\<lparr> reg_schema_name := ''acme'' \<rparr>"
  have s: "validate_schema_name (db ex_world) ''ACME'' = Inr ''acme''"
    by (simp add: validate_schema_name_Inr lower_examples ex_companies isalnum_def
          replace_underscore_def isalnum_char_def)
  have h: "validate_domain_url (db ex_world) ''ACME.example.com'' = Inr ''acme.example.com''"
    by (simp add: validate_domain_url_Inr lower_examples ex_domains)
  have sb: "validate_schema_name (db ex_world) ''Beta'' = Inr ''beta''"
    by (simp add: validate_schema_name_Inr lower_examples ex_companies isalnum_def
          replace_underscore_def isalnum_char_def)
  have hb: "validate_domain_url (db ex_world) ''beta.Example.com'' = Inr ''beta.example.com''"
    by (simp add: validate_domain_url_Inr lower_examples ex_domains)
  have v1: "is_valid (db ex_world) ?r1
              = Inr (?r1\<lparr> reg_schema_name := ''acme'', domain_url := ''beta.example.com'' \<rparr>)"
    by (simp add: is_valid_def s hb ex_registration_fields)
  have v2: "is_valid (db ex_world) ?r2
              = Inr (?r2\<lparr> reg_schema_name := ''beta'', domain_url := ''acme.example.com'' \<rparr>)"
    by (simp add: is_valid_def sb h ex_registration_fields)
  have c1: "CompanyRegistrationSerializer_create
              (?r1\<lparr> reg_schema_name := ''acme'', domain_url := ''beta.example.com'' \<rparr>) ex_world
            = (Inl (IntegrityError ''duplicate key: schema_name''), ex_world)"
    by (rule create_fails_on_schema_name) (simp add: ex_companies)
  have c2: "CompanyRegistrationSerializer_create
              (?r2\<lparr> reg_schema_name := ''beta'', domain_url := ''acme.example.com'' \<rparr>) ex_world
            = (Inl (IntegrityError ''duplicate key: domain''), ex_world)"
  proof (rule create_fails_on_domain)
    show "\<forall>c \<in> set (companies (db ex_world)). schema_name c \<noteq> reg_schema_name
            (?r2\<lparr> reg_schema_name := ''beta'', domain_url := ''acme.example.com'' \<rparr>)"
      by (simp add: ex_companies)
    show "\<exists>x \<in> set (domains (db ex_world)). domain x = domain_url
            (?r2\<lparr> reg_schema_name := ''beta'', domain_url := ''acme.example.com'' \<rparr>)"
      by (simp add: ex_domains)
  qed
  have 3: "register_company ?r1 ex_world
             = (Inl (IntegrityError ''duplicate key: schema_name''), ex_world)"
    using register_company_valid [OF v1] c1 by simp
  have 4: "register_company ?r2 ex_world
             = (Inl (IntegrityError ''duplicate key: domain''), ex_world)"
    using register_company_valid [OF v2] c2 by simp
  have s3: "validate_schema_name (db ex_world) ''acme''
              = Inl (ValidationError ''This schema name is already taken.'')"
    by (simp add: validate_schema_name_def ex_companies)
  have v3: "is_valid (db ex_world) ?r3
              = Inl [ValidationError ''This schema name is already taken.'']"
    by (simp add: is_valid_def s3 hb ex_registration_fields)
  have 5: "register_company ?r3 ex_world
       = (Inr (HTTP_400_BAD_REQUEST,
               Inl [ValidationError ''This schema name is already taken.'']), ex_world)"
    by (rule register_company_invalid [OF v3])
  from s h 3 4 5 show ?thesis by (intro conjI)
qed

text \<open>
  Claim C2, at the input where the code departs from it. The jobs switch the schema inside
  \<^verbatim>\<open>schema_context\<close>, which puts the previous schema back (the three lemmas on
  restoring above). The registration calls \<^verbatim>\<open>connection.set_tenant\<close> and never switches
  back: starting on \<^verbatim>\<open>public\<close>, the connection is left on \<^verbatim>\<open>beta\<close> after a successful
  registration, and on \<^verbatim>\<open>legacy\<close> after one that failed and was rolled back, where the next
  query of the process reads the tables of \<^verbatim>\<open>legacy\<close>. The reminder job on the same world
  leaves the connection on \<^verbatim>\<open>public\<close>.
\<close>

theorem registration_leaves_tenant_schema_active:
  "connection_schema_name ex_world = ''public''
   \<and> current_tenant ex_world = Some empty_tenant
   \<and> connection_schema_name (snd (register_company ex_registration ex_world)) = ''beta''
   \<and> connection_schema_name
        (snd (register_company
               (ex_registration\<lparr> reg_schema_name := ''legacy'',
                  domain_url := ''legacy.example.com'' \<rparr>) ex_world)) = ''legacy''
   \<and> current_tenant
        (snd (register_company
               (ex_registration\<lparr> reg_schema_name := ''legacy'',
                  domain_url := ''legacy.example.com'' \<rparr>) ex_world)) = Some ex_legacy
   \<and> connection_schema_name (snd (send_task_reminder_email 1 ''acme'' True ex_world))
       = ''public''"
proof -
  have 0: "connection_schema_name ex_world = ''public''"
    by (simp add: ex_world_def)
  have 1: "current_tenant ex_world = Some empty_tenant"
    by (simp add: current_tenant_def 0 ex_schemas)
  from ex_registration_succeeds obtain res w'
    where s: "register_company ex_registration ex_world = (Inr (HTTP_201_CREATED, Inr res), w')"
    by blast
  from register_company_created [OF s]
  have "connection_schema_name w' = lower (reg_schema_name ex_registration)" by simp
  with s have 2: "connection_schema_name (snd (register_company ex_registration ex_world))
                    = ''beta''"
    by (simp add: ex_registration_fields lower_examples)
  from ex_legacy_registration_fails obtain w1
    where f: "register_company
          (ex_registration\<lparr> reg_schema_name := ''legacy'', domain_url := ''legacy.example.com'' \<rparr>)
          ex_world
        = (Inl (IntegrityError ''duplicate key: username''), w1)"
      and c: "connection_schema_name w1 = ''legacy''"
    by blast
  from register_company_failure [OF f] have "db w1 = db ex_world" .
  with c have "current_tenant w1 = Some ex_legacy"
    by (simp add: current_tenant_def ex_schemas)
  with f c have 3: "connection_schema_name
        (snd (register_company
               (ex_registration\<lparr> reg_schema_name := ''legacy'',
                  domain_url := ''legacy.example.com'' \<rparr>) ex_world)) = ''legacy''
   \<and> current_tenant
        (snd (register_company
               (ex_registration\<lparr> reg_schema_name := ''legacy'',
                  domain_url := ''legacy.example.com'' \<rparr>) ex_world)) = Some ex_legacy"
    by simp
  have 4: "connection_schema_name (snd (send_task_reminder_email 1 ''acme'' True ex_world))
       = ''public''"
    by (simp add: send_task_reminder_email_restores 0)
  from 0 1 2 3 4 show ?thesis by (intro conjI) simp_all
qed

end
